theory Spec2Isabelle
  imports Complex_Main "HOL-Library.Multiset"
begin

section \<open>Balls: velocity model (assets.py, class Ball)\<close>

text \<open>
  Python's floats are idealised as HOL reals throughout; \<open>math.cos\<close>, \<open>math.sin\<close>
  and \<open>math.radians\<close> are the real functions. Positions, speeds and angles are
  attributes of the sprite, so a ball is a record of them. The width and height of a
  sprite come from its image file, which is not part of the sources: they are fields
  filled in when the sprite is made.
\<close>

definition BALL_MIN_SPEED :: real where
  "BALL_MIN_SPEED = 550"

definition BALL_MAX_SPEED :: real where
  "BALL_MAX_SPEED = BALL_MIN_SPEED + 300"

text \<open>\<open>self.speed_increment = self.speed_decrement = 50\<close> in \<open>Ball.__init__\<close>; the
  two attributes are assigned nowhere else.\<close>

definition speed_increment :: real where
  "speed_increment = 50"

definition speed_decrement :: real where
  "speed_decrement = 50"

datatype ball_type = NormalBall | InvinciBall | MagneticNormalBall | MagneticInviciBall

text \<open>What a ball, a paddle and a brick inherit from \<open>arcade.Sprite\<close>.\<close>

record sprite =
  center_x :: real
  center_y :: real
  width :: real
  height :: real

text \<open>\<open>has_level\<close> is \<open>self.level is not None\<close>: the balls of the menu screens have
  no level.\<close>

record ball = sprite +
  ball_class :: ball_type
  is_invincible :: bool
  has_level :: bool
  velocity_angle :: real
  ball_speed :: real
  change_x :: real
  change_y :: real

definition radians :: "real \<Rightarrow> real" where
  "radians a = a * pi / 180"

text \<open>The edges of a sprite (properties of \<open>arcade.Sprite\<close>) and their setters, which
  move the centre.\<close>

definition left :: "'a sprite_scheme \<Rightarrow> real" where
  "left b = center_x b - width b / 2"

definition right :: "'a sprite_scheme \<Rightarrow> real" where
  "right b = center_x b + width b / 2"

definition top' :: "'a sprite_scheme \<Rightarrow> real" where
  "top' b = center_y b + height b / 2"

definition bottom :: "'a sprite_scheme \<Rightarrow> real" where
  "bottom b = center_y b - height b / 2"

definition set_left :: "real \<Rightarrow> 'a sprite_scheme \<Rightarrow> 'a sprite_scheme" where
  "set_left v b = b\<lparr>center_x := v + width b / 2\<rparr>"

definition set_right :: "real \<Rightarrow> 'a sprite_scheme \<Rightarrow> 'a sprite_scheme" where
  "set_right v b = b\<lparr>center_x := v - width b / 2\<rparr>"

definition set_top :: "real \<Rightarrow> 'a sprite_scheme \<Rightarrow> 'a sprite_scheme" where
  "set_top v b = b\<lparr>center_y := v - height b / 2\<rparr>"

definition set_bottom :: "real \<Rightarrow> 'a sprite_scheme \<Rightarrow> 'a sprite_scheme" where
  "set_bottom v b = b\<lparr>center_y := v + height b / 2\<rparr>"

text \<open>\<open>Ball.set_velocity\<close>: clamp the speed, then derive the two components.\<close>

definition set_velocity :: "ball \<Rightarrow> ball" where
  "set_velocity b =
     (let s = (if ball_speed b > BALL_MAX_SPEED then BALL_MAX_SPEED
               else if ball_speed b < BALL_MIN_SPEED then BALL_MIN_SPEED
               else ball_speed b)
      in b\<lparr>ball_speed := s,
            change_x := s * cos (radians (velocity_angle b)),
            change_y := s * sin (radians (velocity_angle b))\<rparr>)"

text \<open>\<open>Ball.change_velocity\<close>. The paddle enters through its left edge and its width.
  \<open>middle = 20\<close> is the width of the middle part, so the zone boundaries are
  \<open>width / 2 - 10\<close> and \<open>width / 2 + 10\<close>.\<close>

definition change_velocity :: "real \<Rightarrow> real \<Rightarrow> ball \<Rightarrow> ball" where
  "change_velocity paddle_left paddle_width b =
     (let difference = center_x b - paddle_left;
          w = paddle_width;
          middle = (20::real);
          lowest_angle = (25::real);
          highest_angle = (70::real);
          highest_speed = (40::real)
      in set_velocity
        (if difference < w / 2 - middle / 2 then
           (let angle = lowest_angle + difference;
                angle = (if angle > highest_angle then highest_angle else angle)
            in b\<lparr>velocity_angle := 180 - angle,
                  ball_speed := ball_speed b + (highest_speed - difference)\<rparr>)
         else if w / 2 - middle / 2 \<le> difference \<and> difference \<le> w / 2 + middle / 2 then
           b\<lparr>velocity_angle := (if change_x b > 0 then 55 else 180 - 55),
              ball_speed := ball_speed b - 20\<rparr>
         else
           (let angle = w - difference + lowest_angle
            in b\<lparr>velocity_angle := (if angle > highest_angle then highest_angle else angle),
                  ball_speed := ball_speed b + (difference - w + highest_speed)\<rparr>)))"

text \<open>\<open>Ball.change_speed\<close>. In the source the test on \<open>change_y\<close> is written
  \<open>(current_change_y < 0 and self.change_y) > 0 or ...\<close>: when \<open>current_change_y < 0\<close>
  the parenthesis is \<open>self.change_y\<close>, otherwise it is \<open>False\<close>, which is not \<open>> 0\<close>.\<close>

definition change_speed :: "string \<Rightarrow> ball \<Rightarrow> ball" where
  "change_speed action b =
     (let current_change_x = change_x b;
          current_change_y = change_y b;
          b1 = (if action = ''increase'' then b\<lparr>ball_speed := ball_speed b + speed_increment\<rparr>
                else if action = ''decrease'' then b\<lparr>ball_speed := ball_speed b - speed_decrement\<rparr>
                else b);
          b2 = set_velocity b1;
          b3 = (if (current_change_x < 0 \<and> change_x b2 > 0) \<or> (current_change_x > 0 \<and> change_x b2 < 0)
                then b2\<lparr>change_x := change_x b2 * (- 1)\<rparr> else b2);
          b4 = (if (if current_change_y < 0 then change_y b3 > 0 else False)
                     \<or> (current_change_y > 0 \<and> change_y b3 < 0)
                then b3\<lparr>change_y := change_y b3 * (- 1)\<rparr> else b3)
      in b4)"

section \<open>Paddles, bricks, icons and the level\<close>

datatype paddle_type =
  NormalPaddle | LongPaddle | ShortPaddle | DemoNormalPaddle | DemoLongPaddle | DemoShortPaddle

text \<open>\<open>magnetic_ball_list\<close> is a Python list of references to balls: balls are objects of
  a heap, named by their address.\<close>

record paddle = sprite +
  paddle_class :: paddle_type
  paddle_speed :: real
  is_magnetic :: bool
  activate_shooter :: bool
  invincible_balls :: int
  split_balls :: int
  magnetic_ball_list :: "nat list"

datatype icon_type =
  LengthenPaddleIcon | ShortenPaddleIcon | MagneticPaddleIcon | BonusScoreIcon | ShootingIcon
  | SplitBallIcon | BonusLifeIcon | SafetyBarrierIcon | AdvanceLevelIcon | SpeedUpBallsIcon
  | SlowDownBallsIcon | InvinciBallIcon

text \<open>\<open>textures\<close> is \<open>len(self.textures)\<close>, the number of stages of the brick; \<open>icon\<close> is
  the icon the brick carries, if any.\<close>

record brick = sprite +
  is_breakable :: bool
  has_been_hit :: bool
  is_safety_barrier :: bool
  score :: int
  letter :: string
  icon :: "icon_type option"
  cur_texture_index :: nat
  textures :: nat

record boundary =
  boundary_center_x :: real
  inner_left :: real
  inner_right :: real
  inner_top :: real
  inner_bottom :: real
  is_fullscreen :: bool

text \<open>The sizes of the images of the balls and of the paddles: the image files are not part
  of the sources.\<close>

record images =
  ball_image :: "ball_type \<Rightarrow> real \<times> real"
  paddle_image :: "paddle_type \<Rightarrow> real \<times> real"

datatype view =
  MainMenuView | BouncingIntroView | NameEntryView | HighScoreView | LevelOutroView | PauseMenuView

text \<open>The attributes of the window (\<open>ParanoidGame\<close> in main.py) that the level reads and
  writes; \<open>shown_view\<close> is the view handed to \<open>show_view\<close> last, if any.\<close>

record window =
  window_score :: int
  lives :: int
  level_number :: int
  display_score :: int
  shown_view :: "view option"

text \<open>A level with the heaps of its balls and bricks. A sprite list holds the addresses of
  its sprites in order; \<open>next_ball\<close> and \<open>next_brick\<close> are the first addresses not yet in
  use. Sounds and the background music are not part of the state.\<close>

record level =
  balls :: "nat \<Rightarrow> ball"
  next_ball :: nat
  bricks :: "nat \<Rightarrow> brick"
  next_brick :: nat
  ball_list :: "nat list"
  brick_list :: "nat list"
  breakable_brick_list :: "nat list"
  icon_list :: "icon_type list"
  paddle :: paddle
  level_boundary :: boundary
  level_images :: images
  level_window :: window
  is_demo_level :: bool
  game_over :: bool
  level_complete :: bool
  game_is_active :: bool
  lost_a_life :: bool
  bonus_added :: bool
  load_next_level :: bool
  bonus_score :: int
  bonus_collection_order :: string
  elapsed_time :: real
  elapsed_time_copy :: real

text \<open>\<open>remove_from_sprite_lists\<close> of a ball: the ball lists of the level are sprite lists,
  the paddle's \<open>magnetic_ball_list\<close> is a plain list and keeps the reference.\<close>

definition remove_ball_from_sprite_lists :: "nat \<Rightarrow> level \<Rightarrow> level" where
  "remove_ball_from_sprite_lists i l = l\<lparr>ball_list := removeAll i (ball_list l)\<rparr>"

definition remove_brick_from_sprite_lists :: "nat \<Rightarrow> level \<Rightarrow> level" where
  "remove_brick_from_sprite_lists i l =
     l\<lparr>brick_list := removeAll i (brick_list l),
       breakable_brick_list := removeAll i (breakable_brick_list l)\<rparr>"

text \<open>\<open>Ball.__init__\<close> for a ball of a level, with \<open>initialize_texture\<close> of the four
  classes: the two invincible ones set \<open>is_invincible\<close>.\<close>

definition Ball_init :: "ball_type \<Rightarrow> level \<Rightarrow> ball" where
  "Ball_init t l =
     set_velocity
       \<lparr>center_x = boundary_center_x (level_boundary l),
        center_y = inner_bottom (level_boundary l) + 80,
        width = fst (ball_image (level_images l) t),
        height = snd (ball_image (level_images l) t),
        ball_class = t,
        is_invincible = (t = InvinciBall \<or> t = MagneticInviciBall),
        has_level = True,
        velocity_angle = 45,
        ball_speed = BALL_MIN_SPEED,
        change_x = 0,
        change_y = 0\<rparr>"

text \<open>\<open>Ball.change_horizontal_velocity\<close>.\<close>

definition change_horizontal_velocity :: "paddle \<Rightarrow> ball \<Rightarrow> ball" where
  "change_horizontal_velocity p b =
     (if center_x b < center_x p then b\<lparr>change_x := - 1\<rparr> else b)"

text \<open>\<open>Ball.convert_to\<close>: the new ball is stored at a fresh address, appended to the
  level's ball list, and the old one leaves the sprite lists. The result is the address
  of the new ball and the level.\<close>

definition convert_to :: "ball_type \<Rightarrow> nat \<Rightarrow> level \<Rightarrow> nat \<times> level" where
  "convert_to t i l =
     (let self = balls l i;
          b = Ball_init t l;
          b = b\<lparr>center_x := center_x self, center_y := center_y self\<rparr>;
          b = change_horizontal_velocity (paddle l) b;
          j = next_ball l;
          l = l\<lparr>balls := (balls l)(j := b), next_ball := Suc j\<rparr>;
          l = l\<lparr>ball_list := ball_list l @ [j]\<rparr>;
          l = remove_ball_from_sprite_lists i l
      in (j, l))"

text \<open>\<open>Ball.split_into_two\<close>.\<close>

definition split_into_two :: "nat \<Rightarrow> level \<Rightarrow> level" where
  "split_into_two i l =
     (let self = balls l i;
          b = Ball_init (ball_class self) l;
          b = b\<lparr>center_x := center_x self, center_y := center_y self\<rparr>;
          b = b\<lparr>change_x := - change_x self, change_y := change_y self\<rparr>;
          j = next_ball l;
          l = l\<lparr>balls := (balls l)(j := b), next_ball := Suc j\<rparr>;
          l = l\<lparr>ball_list := ball_list l @ [j]\<rparr>
      in l\<lparr>paddle := (paddle l)\<lparr>split_balls := split_balls (paddle l) - 1\<rparr>\<rparr>)"

text \<open>\<open>ball.change_velocity()\<close> on the ball at an address, with the level's paddle.\<close>

definition change_velocity_at :: "nat \<Rightarrow> level \<Rightarrow> level" where
  "change_velocity_at i l =
     l\<lparr>balls := (balls l)(i := change_velocity (left (paddle l)) (width (paddle l)) (balls l i))\<rparr>"

text \<open>\<open>Ball.change_properties\<close>, called when the ball lands on the top of the paddle.\<close>

definition Ball_change_properties :: "nat \<Rightarrow> level \<Rightarrow> level" where
  "Ball_change_properties i l =
     (let (ball, l) =
            (if invincible_balls (paddle l) > 0 then
               (let (ball, l) = (if \<not> is_invincible (balls l i) then convert_to InvinciBall i l
                                 else (i, l))
                in (ball, l\<lparr>paddle := (paddle l)\<lparr>invincible_balls := invincible_balls (paddle l) - 1\<rparr>\<rparr>))
             else
               (if is_invincible (balls l i) then convert_to NormalBall i l else (i, l)))
      in if is_magnetic (paddle l) then
           (let (magnetic_ball, l) =
                  (if is_invincible (balls l ball) then convert_to MagneticInviciBall ball l
                   else convert_to MagneticNormalBall ball l)
            in l\<lparr>paddle := (paddle l)\<lparr>magnetic_ball_list := magnetic_ball_list (paddle l) @ [magnetic_ball]\<rparr>\<rparr>)
         else
           (let l = change_velocity_at ball l
            in if split_balls (paddle l) > 0 then split_into_two ball l else l))"

text \<open>\<open>Ball.collides_with_paddle_moving_horizontally\<close>. \<open>hit\<close> is the result of
  \<open>self.collides_with_sprite(self.level.paddle)\<close>, computed by the arcade library.\<close>

definition collides_with_paddle_moving_horizontally :: "bool \<Rightarrow> paddle \<Rightarrow> ball \<Rightarrow> ball" where
  "collides_with_paddle_moving_horizontally hit p b =
     (if has_level b then
        (if hit then
           (if change_x b < 0 \<and> center_x b < center_x p then
              set_velocity (b\<lparr>velocity_angle := 180 + 15, ball_speed := ball_speed b + 100\<rparr>)
            else if change_x b > 0 \<and> center_x b > center_x p then
              set_velocity (b\<lparr>velocity_angle := - 15, ball_speed := ball_speed b + 100\<rparr>)
            else if change_x b > 0 then
              (let b = set_right (left p) b in b\<lparr>change_x := change_x b * (- 1)\<rparr>)
            else if change_x b < 0 then
              (let b = set_left (right p) b in b\<lparr>change_x := change_x b * (- 1)\<rparr>)
            else b)
         else b)
      else b)"

text \<open>\<open>Ball.collides_with_paddle_moving_vertically\<close>, on the ball at address \<open>i\<close>: the
  last branch is the landing on the top of the paddle.\<close>

definition collides_with_paddle_moving_vertically :: "bool \<Rightarrow> nat \<Rightarrow> level \<Rightarrow> level" where
  "collides_with_paddle_moving_vertically hit i l =
     (let b = balls l i; p = paddle l in
      if has_level b then
        (if hit then
           (if change_y b < 0 \<and> center_y b < top' p \<and> center_x b < left p then
              l\<lparr>balls := (balls l)(i := set_velocity
                   (b\<lparr>velocity_angle := 180 + 15, ball_speed := ball_speed b + 100\<rparr>))\<rparr>
            else if change_y b < 0 \<and> center_y b < top' p \<and> center_x b > right p then
              l\<lparr>balls := (balls l)(i := set_velocity
                   (b\<lparr>velocity_angle := - 15, ball_speed := ball_speed b + 100\<rparr>))\<rparr>
            else if change_y b > 0 then
              l\<lparr>balls := (balls l)(i := (let b = set_top (bottom p) b
                                           in b\<lparr>change_y := change_y b * (- 1)\<rparr>))\<rparr>
            else if change_y b < 0 then
              Ball_change_properties i (l\<lparr>balls := (balls l)(i := set_bottom (top' p) b)\<rparr>)
            else l)
         else l)
      else l)"

section \<open>Bricks\<close>

text \<open>\<open>Brick.change_properties\<close> on the brick at address \<open>k\<close>. Playing a sound changes
  nothing of the level, so the branch of the unbreakable bricks leaves it as it is.\<close>

definition Brick_change_properties :: "nat \<Rightarrow> level \<Rightarrow> level" where
  "Brick_change_properties k l =
     (let self = bricks l k in
      if is_breakable self \<and> \<not> has_been_hit self then
        (let self = self\<lparr>has_been_hit := True\<rparr>;
             self = self\<lparr>cur_texture_index := cur_texture_index self + 1\<rparr>;
             l = l\<lparr>bricks := (bricks l)(k := self)\<rparr>;
             l = (if cur_texture_index self < textures self then l
                  else remove_brick_from_sprite_lists k l);
             l = l\<lparr>level_window := (level_window l)\<lparr>window_score := window_score (level_window l) + score self\<rparr>\<rparr>;
             l = (if letter self \<noteq> [] then
                    l\<lparr>bonus_collection_order := bonus_collection_order l @ letter self\<rparr>
                  else l)
         in case icon self of
              Some ic \<Rightarrow> l\<lparr>icon_list := icon_list l @ [ic],
                           bricks := (bricks l)(k := self\<lparr>icon := None\<rparr>)\<rparr>
            | None \<Rightarrow> l)
      else if \<not> is_breakable self then l
      else l)"

text \<open>\<open>Brick.update\<close>. The two flags are the results of
  \<open>self.collides_with_list(self.level.ball_list)\<close> and of
  \<open>self.collides_with_list(self.level.bullet_list)\<close> being non-empty.\<close>

definition Brick_update :: "bool \<Rightarrow> bool \<Rightarrow> nat \<Rightarrow> level \<Rightarrow> level" where
  "Brick_update hits_ball hits_bullet k l =
     (if has_been_hit (bricks l k) \<and> \<not> hits_ball \<and> \<not> hits_bullet then
        l\<lparr>bricks := (bricks l)(k := (bricks l k)\<lparr>has_been_hit := False\<rparr>)\<rparr>
      else l)"

text \<open>The loop \<open>for brick in hit_list: brick.change_properties()\<close>.\<close>

fun change_properties_of_all :: "nat list \<Rightarrow> level \<Rightarrow> level" where
  "change_properties_of_all [] l = l"
| "change_properties_of_all (k # ks) l = change_properties_of_all ks (Brick_change_properties k l)"

text \<open>\<open>InvinciBall.collides_with_brick_moving_horizontally\<close> on the ball at address \<open>i\<close>.
  \<open>hit_list\<close> is the result of \<open>self.collides_with_list(self.brick_list)\<close>: the addresses
  of the bricks that overlap the ball. The first loop stops at the first brick that is
  unbreakable and no safety barrier.\<close>

definition InvinciBall_collides_with_brick_moving_horizontally :: "nat list \<Rightarrow> nat \<Rightarrow> level \<Rightarrow> level" where
  "InvinciBall_collides_with_brick_moving_horizontally hit_list i l =
     (let self = balls l i;
          self = (case find (\<lambda>k. \<not> is_breakable (bricks l k) \<and> \<not> is_safety_barrier (bricks l k)) hit_list of
                    Some k \<Rightarrow>
                      (let self = (if change_x self > 0 then set_right (left (bricks l k)) self
                                   else set_left (right (bricks l k)) self)
                       in self\<lparr>change_x := change_x self * (- 1)\<rparr>)
                  | None \<Rightarrow> self);
          l = l\<lparr>balls := (balls l)(i := self)\<rparr>
      in if has_level self then change_properties_of_all hit_list l else l)"

text \<open>\<open>InvinciBall.collides_with_brick_moving_vertically\<close>: here the first loop stops at
  the first brick that is unbreakable or a safety barrier.\<close>

definition InvinciBall_collides_with_brick_moving_vertically :: "nat list \<Rightarrow> nat \<Rightarrow> level \<Rightarrow> level" where
  "InvinciBall_collides_with_brick_moving_vertically hit_list i l =
     (let self = balls l i;
          self = (case find (\<lambda>k. \<not> is_breakable (bricks l k) \<or> is_safety_barrier (bricks l k)) hit_list of
                    Some k \<Rightarrow>
                      (let self = (if change_y self > 0 then set_top (bottom (bricks l k)) self
                                   else set_bottom (top' (bricks l k)) self)
                       in self\<lparr>change_y := change_y self * (- 1)\<rparr>)
                  | None \<Rightarrow> self);
          l = l\<lparr>balls := (balls l)(i := self)\<rparr>
      in if has_level self then change_properties_of_all hit_list l else l)"

section \<open>Paddles and icons\<close>

lemma paddle_convert_to: "paddle (snd (convert_to t i l)) = paddle l"
  by (simp add: convert_to_def remove_ball_from_sprite_lists_def Let_def)

lemma length_append_remove1:
  assumes "i < length xs"
  shows "length (remove1 (xs ! i) (xs @ [y])) = length xs"
proof -
  from assms have "xs ! i \<in> set (xs @ [y])" by simp
  then show ?thesis by (simp only: length_remove1 if_True) simp
qed

text \<open>\<open>InvinciBallIcon.activate_icon_property\<close>. The loop
  \<open>for ball in self.level.paddle.magnetic_ball_list\<close> appends to the list and removes
  from it while it runs over it: Python's list iterator keeps an index \<open>n\<close>, reads
  the element at \<open>n\<close> of the list as it is then, and stops when \<open>n\<close> reaches the
  length. \<open>list.remove\<close> deletes the first occurrence.\<close>

function InvinciBallIcon_loop :: "nat \<Rightarrow> level \<Rightarrow> level" where
  "InvinciBallIcon_loop n l =
     (if n < length (magnetic_ball_list (paddle l)) then
        (let ball = magnetic_ball_list (paddle l) ! n in
         if \<not> is_invincible (balls l ball) then
           (let r = convert_to MagneticInviciBall ball l;
                new_ball = fst r;
                l1 = snd r;
                l2 = l1\<lparr>paddle := (paddle l1)\<lparr>magnetic_ball_list := magnetic_ball_list (paddle l1) @ [new_ball]\<rparr>\<rparr>;
                l3 = l2\<lparr>paddle := (paddle l2)\<lparr>magnetic_ball_list := remove1 ball (magnetic_ball_list (paddle l2))\<rparr>\<rparr>;
                l4 = l3\<lparr>paddle := (paddle l3)\<lparr>invincible_balls := invincible_balls (paddle l3) - 1\<rparr>\<rparr>
            in InvinciBallIcon_loop (Suc n) l4)
         else InvinciBallIcon_loop (Suc n) l)
      else l)"
  by pat_completeness auto
termination
proof (relation "measure (\<lambda>(n, l). length (magnetic_ball_list (paddle l)) - n)")
  show "wf (measure (\<lambda>(n, l). length (magnetic_ball_list (paddle l)) - n))" by simp
next
  fix n :: nat and l :: level and ball r new_ball l1 l2 l3 l4
  assume n: "n < length (magnetic_ball_list (paddle l))"
    and ball: "ball = magnetic_ball_list (paddle l) ! n"
    and r: "r = convert_to MagneticInviciBall ball l"
    and l1: "l1 = snd r"
    and l2: "l2 = l1\<lparr>paddle := (paddle l1)\<lparr>magnetic_ball_list := magnetic_ball_list (paddle l1) @ [new_ball]\<rparr>\<rparr>"
    and l3: "l3 = l2\<lparr>paddle := (paddle l2)\<lparr>magnetic_ball_list := remove1 ball (magnetic_ball_list (paddle l2))\<rparr>\<rparr>"
    and l4: "l4 = l3\<lparr>paddle := (paddle l3)\<lparr>invincible_balls := invincible_balls (paddle l3) - 1\<rparr>\<rparr>"
  have "magnetic_ball_list (paddle l4)
          = remove1 (magnetic_ball_list (paddle l) ! n) (magnetic_ball_list (paddle l) @ [new_ball])"
    by (simp add: l4 l3 l2 l1 r ball paddle_convert_to)
  then have "length (magnetic_ball_list (paddle l4)) = length (magnetic_ball_list (paddle l))"
    using n by (simp only: length_append_remove1)
  then show "((Suc n, l4), (n, l)) \<in> measure (\<lambda>(n, l). length (magnetic_ball_list (paddle l)) - n)"
    using n by simp
next
  fix n :: nat and l :: level and ball
  assume "n < length (magnetic_ball_list (paddle l))"
  then show "((Suc n, l), (n, l)) \<in> measure (\<lambda>(n, l). length (magnetic_ball_list (paddle l)) - n)"
    by simp
qed

definition InvinciBallIcon_activate_icon_property :: "level \<Rightarrow> level" where
  "InvinciBallIcon_activate_icon_property l =
     InvinciBallIcon_loop 0
       (l\<lparr>paddle := (paddle l)\<lparr>invincible_balls := invincible_balls (paddle l) + 3\<rparr>\<rparr>)"

declare InvinciBallIcon_loop.simps [simp del]

definition PADDLE_SPEED :: real where
  "PADDLE_SPEED = 500"

text \<open>\<open>Paddle.__init__\<close> with the image of the class.\<close>

definition Paddle_init :: "paddle_type \<Rightarrow> level \<Rightarrow> paddle" where
  "Paddle_init t l =
     \<lparr>center_x = boundary_center_x (level_boundary l),
      center_y = inner_bottom (level_boundary l) + 20,
      width = fst (paddle_image (level_images l) t),
      height = snd (paddle_image (level_images l) t),
      paddle_class = t,
      paddle_speed = PADDLE_SPEED,
      is_magnetic = False,
      activate_shooter = False,
      invincible_balls = 0,
      split_balls = 0,
      magnetic_ball_list = []\<rparr>"

text \<open>\<open>Paddle.copy_properties_from\<close>.\<close>

definition copy_properties_from :: "paddle \<Rightarrow> paddle \<Rightarrow> paddle" where
  "copy_properties_from other self =
     self\<lparr>center_x := center_x other,
          center_y := center_y other,
          is_magnetic := is_magnetic other,
          activate_shooter := activate_shooter other,
          invincible_balls := invincible_balls other,
          split_balls := split_balls other,
          magnetic_ball_list := magnetic_ball_list other\<rparr>"

text \<open>\<open>Paddle.collides_with_boundary\<close>.\<close>

definition Paddle_collides_with_boundary :: "boundary \<Rightarrow> paddle \<Rightarrow> paddle" where
  "Paddle_collides_with_boundary bd p =
     (if right p > inner_right bd then set_right (inner_right bd) p
      else if left p < inner_left bd then set_left (inner_left bd) p
      else p)"

text \<open>\<open>isinstance\<close> against the paddle classes: each demo paddle inherits from the paddle
  of its size.\<close>

definition isinstance_ShortPaddle :: "paddle_type \<Rightarrow> bool" where
  "isinstance_ShortPaddle t = (t = ShortPaddle \<or> t = DemoShortPaddle)"

definition isinstance_LongPaddle :: "paddle_type \<Rightarrow> bool" where
  "isinstance_LongPaddle t = (t = LongPaddle \<or> t = DemoLongPaddle)"

text \<open>The body of the loop of \<open>Paddle.release_magnetic_balls\<close> for one ball, and the
  loop; the list is cleared after it.\<close>

definition release_one :: "nat \<Rightarrow> level \<Rightarrow> level" where
  "release_one ball l =
     (let (new_ball, l) = (if is_invincible (balls l ball) then convert_to InvinciBall ball l
                           else convert_to NormalBall ball l);
          l = change_velocity_at new_ball l
      in if split_balls (paddle l) > 0 then split_into_two new_ball l else l)"

definition release_magnetic_balls :: "level \<Rightarrow> level" where
  "release_magnetic_balls l =
     (let l = fold release_one (magnetic_ball_list (paddle l)) l
      in l\<lparr>paddle := (paddle l)\<lparr>magnetic_ball_list := []\<rparr>\<rparr>)"

text \<open>The loop \<open>for ball in self.level.ball_list: ball.change_speed(action)\<close> of the
  icons.\<close>

definition change_speed_at :: "string \<Rightarrow> nat \<Rightarrow> level \<Rightarrow> level" where
  "change_speed_at action i l = l\<lparr>balls := (balls l)(i := change_speed action (balls l i))\<rparr>"

definition change_speed_of_all :: "string \<Rightarrow> level \<Rightarrow> level" where
  "change_speed_of_all action l = fold (change_speed_at action) (ball_list l) l"

text \<open>\<open>LengthenPaddleIcon.activate_icon_property\<close>.\<close>

definition LengthenPaddleIcon_activate_icon_property :: "level \<Rightarrow> level" where
  "LengthenPaddleIcon_activate_icon_property l =
     (let current_paddle = paddle l;
          p = (if is_demo_level l then
                 (if paddle_class current_paddle = DemoShortPaddle then Paddle_init DemoNormalPaddle l
                  else Paddle_init DemoLongPaddle l)
               else
                 (if isinstance_ShortPaddle (paddle_class current_paddle) then Paddle_init NormalPaddle l
                  else Paddle_init LongPaddle l));
          p = copy_properties_from current_paddle p;
          p = Paddle_collides_with_boundary (level_boundary l) p
      in change_speed_of_all ''increase'' (l\<lparr>paddle := p\<rparr>))"

text \<open>What \<open>ShortenPaddleIcon\<close> does to a ball it has just made from a magnetic ball that
  is no longer on the paddle.\<close>

definition drop_ball :: "ball \<Rightarrow> ball" where
  "drop_ball b = set_velocity (b\<lparr>ball_speed := 200, velocity_angle := - 90\<rparr>)"

text \<open>The loop of \<open>ShortenPaddleIcon.activate_icon_property\<close>, which removes from the list
  it runs over, with the index \<open>n\<close> of Python's list iterator.\<close>

function ShortenPaddleIcon_loop :: "nat \<Rightarrow> level \<Rightarrow> level" where
  "ShortenPaddleIcon_loop n l =
     (if n < length (magnetic_ball_list (paddle l)) then
        (let ball = magnetic_ball_list (paddle l) ! n in
         if center_x (balls l ball) < left (paddle l) \<or> center_x (balls l ball) > right (paddle l) then
           (let r = (if is_invincible (balls l ball) then convert_to InvinciBall ball l
                     else convert_to NormalBall ball l);
                new_ball = fst r;
                l1 = snd r;
                l2 = l1\<lparr>balls := (balls l1)(new_ball := drop_ball (balls l1 new_ball))\<rparr>;
                l3 = l2\<lparr>paddle := (paddle l2)\<lparr>magnetic_ball_list := remove1 ball (magnetic_ball_list (paddle l2))\<rparr>\<rparr>
            in ShortenPaddleIcon_loop (Suc n) l3)
         else ShortenPaddleIcon_loop (Suc n) l)
      else l)"
  by pat_completeness auto
termination
proof (relation "measure (\<lambda>(n, l). length (magnetic_ball_list (paddle l)) - n)")
  show "wf (measure (\<lambda>(n, l). length (magnetic_ball_list (paddle l)) - n))" by simp
next
  fix n :: nat and l :: level and ball r new_ball l1 l2 l3
  assume n: "n < length (magnetic_ball_list (paddle l))"
    and ball: "ball = magnetic_ball_list (paddle l) ! n"
    and r: "r = (if is_invincible (balls l ball) then convert_to InvinciBall ball l
                 else convert_to NormalBall ball l)"
    and l1: "l1 = snd r"
    and l2: "l2 = l1\<lparr>balls := (balls l1)(new_ball := drop_ball (balls l1 new_ball))\<rparr>"
    and l3: "l3 = l2\<lparr>paddle := (paddle l2)\<lparr>magnetic_ball_list := remove1 ball (magnetic_ball_list (paddle l2))\<rparr>\<rparr>"
  have "magnetic_ball_list (paddle l3)
          = remove1 (magnetic_ball_list (paddle l) ! n) (magnetic_ball_list (paddle l))"
    by (simp add: l3 l2 l1 r ball paddle_convert_to)
  moreover have "magnetic_ball_list (paddle l) ! n \<in> set (magnetic_ball_list (paddle l))"
    using n by simp
  ultimately have "length (magnetic_ball_list (paddle l3)) = length (magnetic_ball_list (paddle l)) - 1"
    by (simp add: length_remove1)
  then show "((Suc n, l3), (n, l)) \<in> measure (\<lambda>(n, l). length (magnetic_ball_list (paddle l)) - n)"
    using n by simp
next
  fix n :: nat and l :: level and ball
  assume "n < length (magnetic_ball_list (paddle l))"
  then show "((Suc n, l), (n, l)) \<in> measure (\<lambda>(n, l). length (magnetic_ball_list (paddle l)) - n)"
    by simp
qed

declare ShortenPaddleIcon_loop.simps [simp del]

text \<open>\<open>ShortenPaddleIcon.activate_icon_property\<close>.\<close>

definition ShortenPaddleIcon_activate_icon_property :: "level \<Rightarrow> level" where
  "ShortenPaddleIcon_activate_icon_property l =
     (let current_paddle = paddle l;
          p = (if is_demo_level l then
                 (if paddle_class current_paddle = DemoLongPaddle then Paddle_init DemoNormalPaddle l
                  else Paddle_init DemoShortPaddle l)
               else
                 (if isinstance_LongPaddle (paddle_class current_paddle) then Paddle_init NormalPaddle l
                  else Paddle_init ShortPaddle l));
          p = copy_properties_from current_paddle p
      in ShortenPaddleIcon_loop 0 (l\<lparr>paddle := p\<rparr>))"

text \<open>\<open>SpeedUpBallsIcon.activate_icon_property\<close> and
  \<open>SlowDownBallsIcon.activate_icon_property\<close>.\<close>

definition SpeedUpBallsIcon_activate_icon_property :: "level \<Rightarrow> level" where
  "SpeedUpBallsIcon_activate_icon_property l =
     (let l = l\<lparr>paddle := (paddle l)\<lparr>is_magnetic := False\<rparr>\<rparr>;
          l = release_magnetic_balls l
      in change_speed_of_all ''increase'' l)"

definition SlowDownBallsIcon_activate_icon_property :: "level \<Rightarrow> level" where
  "SlowDownBallsIcon_activate_icon_property l = change_speed_of_all ''decrease'' l"

section \<open>The level (levels.py, class Level)\<close>

definition PAUSE_TIME :: real where
  "PAUSE_TIME = 3"

definition TRANSITION_TIME :: real where
  "TRANSITION_TIME = 1"

definition DEMO_LEVEL_TIME :: real where
  "DEMO_LEVEL_TIME = 12"

datatype py_error = IndexError | ValueError | StopIteration

text \<open>An entry of the high scores: the named tuple \<open>Entry\<close> with the fields \<open>name\<close>,
  \<open>level\<close> and \<open>score\<close>.\<close>

record entry =
  entry_name :: string
  entry_level :: string
  entry_score :: int

definition show_view :: "view \<Rightarrow> level \<Rightarrow> level" where
  "show_view v l = l\<lparr>level_window := (level_window l)\<lparr>shown_view := Some v\<rparr>\<rparr>"

text \<open>\<open>Level.level_is_complete\<close>. The sounds and the background music are not part of the
  state modelled.\<close>

definition level_is_complete :: "level \<Rightarrow> level" where
  "level_is_complete l =
     (let l = l\<lparr>game_is_active := False, level_complete := True, elapsed_time := 0\<rparr>;
          l = (if length (bonus_collection_order l) = 5 then
                 (if bonus_collection_order l = ''BONUS'' then l\<lparr>bonus_score := 5000\<rparr>
                  else l\<lparr>bonus_score := 2000\<rparr>)
               else l)
      in l\<lparr>bonus_score := bonus_score l + lives (level_window l) * 100\<rparr>)"


text \<open>\<open>Level.lose_a_life\<close>.\<close>

definition lose_a_life :: "level \<Rightarrow> level" where
  "lose_a_life l =
     (let l = l\<lparr>game_is_active := False\<rparr>;
          l = l\<lparr>level_window := (level_window l)\<lparr>lives := lives (level_window l) - 1\<rparr>\<rparr>;
          l = (if lives (level_window l) = 0 then l\<lparr>game_over := True\<rparr>
               else l\<lparr>lost_a_life := True\<rparr>)
      in l\<lparr>elapsed_time := 0\<rparr>)"

text \<open>\<open>Level.on_update\<close>. \<open>update_sprites\<close> stands for the five calls
  \<open>self.ball_list.on_update()\<close>, \<open>self.paddle.on_update()\<close>,
  \<open>self.icon_list.on_update()\<close>, \<open>self.bullet_list.on_update()\<close> and
  \<open>self.brick_list.update()\<close>, whose collision tests belong to the arcade library;
  \<open>HIGH_SCORES\<close> is the global list of that name, and \<open>HIGH_SCORES[-1]\<close> raises
  \<open>IndexError\<close> on an empty list. The block that loops the background music changes
  no field of the model. \<open>start_of_update\<close> is the part before the branches: the clock
  and the time limit of a demo level.\<close>

definition start_of_update :: "real \<Rightarrow> level \<Rightarrow> level" where
  "start_of_update delta_time l =
     (let l = l\<lparr>elapsed_time := elapsed_time l + delta_time\<rparr>
      in if is_demo_level l \<and> elapsed_time l > DEMO_LEVEL_TIME then show_view MainMenuView l
         else l)"

definition Level_on_update :: "(level \<Rightarrow> level) \<Rightarrow> entry list \<Rightarrow> real \<Rightarrow> level \<Rightarrow> py_error + level" where
  "Level_on_update update_sprites HIGH_SCORES delta_time l =
     (let l = start_of_update delta_time l
      in if game_is_active l then
           (let l = update_sprites l
            in if breakable_brick_list l = [] then Inr (level_is_complete l)
               else if ball_list l = [] then Inr (lose_a_life l)
               else Inr l)
         else if lost_a_life l \<and> elapsed_time l > PAUSE_TIME + TRANSITION_TIME then
           (let l = l\<lparr>paddle := Paddle_init NormalPaddle l\<rparr>;
                ball = Ball_init NormalBall l;
                j = next_ball l;
                l = l\<lparr>balls := (balls l)(j := ball), next_ball := Suc j\<rparr>;
                l = l\<lparr>ball_list := ball_list l @ [j]\<rparr>
            in Inr (l\<lparr>lost_a_life := False\<rparr>))
         else if game_over l \<and> elapsed_time l > PAUSE_TIME * 2 + TRANSITION_TIME
                 \<and> display_score (level_window l) = window_score (level_window l) then
           (if HIGH_SCORES = [] then Inl IndexError
            else if window_score (level_window l) > entry_score (last HIGH_SCORES)
              then Inr (show_view NameEntryView l)
            else Inr (show_view HighScoreView l))
         else if level_complete l \<and> elapsed_time l > PAUSE_TIME + TRANSITION_TIME
                 \<and> display_score (level_window l) = window_score (level_window l)
                 \<and> \<not> load_next_level l then
           Inr (l\<lparr>load_next_level := True, elapsed_time_copy := elapsed_time l\<rparr>)
         else if load_next_level l \<and> elapsed_time l > elapsed_time_copy l + PAUSE_TIME - 1 then
           Inr (show_view LevelOutroView l)
         else Inr l)"

section \<open>The high scores file (levels.py)\<close>

text \<open>A text file is the list of its lines, each with its line end, as the iteration over
  the open file yields them; \<open>None\<close> is the file that does not exist.\<close>

type_synonym text_file = "string list option"

text \<open>\<open>str\<close> of a natural number, as the f-string writes it.\<close>

definition digit_char :: "nat \<Rightarrow> char" where
  "digit_char d = ''0123456789'' ! d"

fun str_nat :: "nat \<Rightarrow> string" where
  "str_nat n = (if n < 10 then [digit_char n] else str_nat (n div 10) @ [digit_char (n mod 10)])"

declare str_nat.simps [simp del]

text \<open>One row of \<open>create_high_scores\<close>; \<open>asctime\<close> is the result of the call of
  \<open>time.asctime()\<close> made for the row. \<open>int(i/2)\<close> of a positive \<open>i\<close> is \<open>i div 2\<close>.\<close>

definition seed_row :: "(nat \<Rightarrow> string) \<Rightarrow> nat \<Rightarrow> string" where
  "seed_row asctime i =
     (if i mod 2 = 0 then
        ''Freddy,'' @ str_nat (i div 2) @ '','' @ str_nat (i * 5000) @ '','' @ asctime i @ [CHR 0x0A]
      else
        ''BBB,'' @ str_nat ((i + 1) div 2) @ '','' @ str_nat (i * 5000) @ '','' @ asctime i @ [CHR 0x0A])"

text \<open>\<open>create_high_scores\<close>: the lines written, \<open>range(10, 0, -1)\<close> being 10, 9, ..., 1.\<close>

definition create_high_scores :: "(nat \<Rightarrow> string) \<Rightarrow> string list" where
  "create_high_scores asctime =
     (''name,level,score,datetime'' @ [CHR 0x0A]) # map (seed_row asctime) (rev [1..<11])"

text \<open>\<open>str.split(",")\<close>.\<close>

fun split_comma :: "string \<Rightarrow> string list" where
  "split_comma [] = [[]]"
| "split_comma (c # cs) =
     (if c = CHR '','' then [] # split_comma cs
      else (case split_comma cs of [] \<Rightarrow> [[c]] | f # fs \<Rightarrow> (c # f) # fs))"

text \<open>\<open>int\<close> of a string: white space around the number is dropped (the space and the
  characters 9 to 13), a sign may come first, and single underscores may stand between
  the digits. Strings are bytes here, so only the ASCII digits are covered.\<close>

definition is_space :: "char \<Rightarrow> bool" where
  "is_space c = (c = CHR '' '' \<or> (9 \<le> (of_char c :: nat) \<and> (of_char c :: nat) \<le> 13))"

definition is_digit :: "char \<Rightarrow> bool" where
  "is_digit c = (48 \<le> (of_char c :: nat) \<and> (of_char c :: nat) \<le> 57)"

definition digit_value :: "char \<Rightarrow> nat" where
  "digit_value c = of_char c - 48"

definition strip :: "string \<Rightarrow> string" where
  "strip s = rev (dropWhile is_space (rev (dropWhile is_space s)))"

fun more_digits :: "nat \<Rightarrow> string \<Rightarrow> nat option" where
  "more_digits acc [] = Some acc"
| "more_digits acc [c] = (if is_digit c then Some (acc * 10 + digit_value c) else None)"
| "more_digits acc (c # d # cs) =
     (if is_digit c then more_digits (acc * 10 + digit_value c) (d # cs)
      else if c = CHR ''_'' \<and> is_digit d then more_digits acc (d # cs)
      else None)"

definition digits :: "string \<Rightarrow> nat option" where
  "digits s = (case s of [] \<Rightarrow> None
               | c # cs \<Rightarrow> if is_digit c then more_digits (digit_value c) cs else None)"

definition py_int :: "string \<Rightarrow> py_error + int" where
  "py_int s =
     (let t = strip s;
          (neg, body) = (case t of [] \<Rightarrow> (False, [])
                         | c # cs \<Rightarrow> if c = CHR ''-'' then (True, cs)
                                    else if c = CHR ''+'' then (False, cs) else (False, t))
      in case digits body of
           None \<Rightarrow> Inl ValueError
         | Some n \<Rightarrow> Inr (if neg then - int n else int n))"

text \<open>The body of the reading loop of \<open>get_high_scores\<close> for one line, and the loop: the
  first exception ends it.\<close>

definition read_entry :: "string \<Rightarrow> py_error + entry" where
  "read_entry line =
     (let row = split_comma line in
      if length row < 3 then Inl IndexError
      else case py_int (row ! 2) of
             Inl e \<Rightarrow> Inl e
           | Inr n \<Rightarrow> Inr \<lparr>entry_name = row ! 0, entry_level = row ! 1, entry_score = n\<rparr>)"

fun read_entries :: "string list \<Rightarrow> py_error + entry list" where
  "read_entries [] = Inr []"
| "read_entries (line # rest) =
     (case read_entry line of
        Inl e \<Rightarrow> Inl e
      | Inr x \<Rightarrow> (case read_entries rest of Inl e \<Rightarrow> Inl e | Inr xs \<Rightarrow> Inr (x # xs)))"

text \<open>\<open>sorted(high_scores_list, key=lambda entry: entry.score, reverse=True)[:10]\<close>:
  Python's sort is stable, also with \<open>reverse=True\<close>, and so is the insertion sort
  \<open>sort_key\<close> on the negated score.\<close>

definition ten_best :: "entry list \<Rightarrow> entry list" where
  "ten_best es = take 10 (sort_key (\<lambda>e. - entry_score e) es)"

text \<open>\<open>get_high_scores\<close>: the file after the call, and the list returned or the exception
  raised. \<open>next(high_scores_file)\<close> raises \<open>StopIteration\<close> on a file with no line.\<close>

definition get_high_scores :: "(nat \<Rightarrow> string) \<Rightarrow> text_file \<Rightarrow> text_file \<times> (py_error + entry list)" where
  "get_high_scores asctime file =
     (let lines = (case file of None \<Rightarrow> create_high_scores asctime | Some ls \<Rightarrow> ls)
      in (Some lines,
          case lines of
            [] \<Rightarrow> Inl StopIteration
          | heading # rest \<Rightarrow>
              (case read_entries rest of
                 Inl e \<Rightarrow> Inl e
               | Inr high_scores_list \<Rightarrow> Inr (ten_best high_scores_list))))"

text \<open>One round of the loop of \<open>InvinciBallIcon\<close> on a ball that is not invincible: the
  body of its \<open>if\<close>.\<close>

definition InvinciBallIcon_round :: "nat \<Rightarrow> level \<Rightarrow> level" where
  "InvinciBallIcon_round n l =
     (let ball = magnetic_ball_list (paddle l) ! n;
          r = convert_to MagneticInviciBall ball l;
          new_ball = fst r;
          l1 = snd r;
          l2 = l1\<lparr>paddle := (paddle l1)\<lparr>magnetic_ball_list := magnetic_ball_list (paddle l1) @ [new_ball]\<rparr>\<rparr>;
          l3 = l2\<lparr>paddle := (paddle l2)\<lparr>magnetic_ball_list := remove1 ball (magnetic_ball_list (paddle l2))\<rparr>\<rparr>
      in l3\<lparr>paddle := (paddle l3)\<lparr>invincible_balls := invincible_balls (paddle l3) - 1\<rparr>\<rparr>)"

section \<open>Predicates of the statements\<close>

text \<open>A speed within the limits of \<open>set_velocity\<close>.\<close>

definition within_limits :: "real \<Rightarrow> bool" where
  "within_limits s = (BALL_MIN_SPEED \<le> s \<and> s \<le> BALL_MAX_SPEED)"

text \<open>From one state of the level to a later one, every ball has the speed it had or
  a speed within the limits.\<close>

definition kept_or_clamped :: "level \<Rightarrow> level \<Rightarrow> bool" where
  "kept_or_clamped l l' =
     (\<forall>j. ball_speed (balls l' j) = ball_speed (balls l j) \<or> within_limits (ball_speed (balls l' j)))"

text \<open>The velocity of a ball is derived from its speed and its angle up to the signs of
  the components, or the ball still has the angle 45 that \<open>Ball.__init__\<close> gives it. The
  code writes \<open>velocity_angle\<close> only in \<open>__init__\<close> and right before a call of
  \<open>set_velocity\<close>; it writes \<open>change_x\<close> and \<open>change_y\<close> in \<open>set_velocity\<close>, by a change of
  sign, and on a ball that \<open>convert_to\<close> or \<open>split_into_two\<close> has just made. So every
  ball of the program is of this kind.\<close>

definition velocity_derived :: "ball \<Rightarrow> bool" where
  "velocity_derived b =
     (velocity_angle b = 45
      \<or> (\<bar>change_x b\<bar> = ball_speed b * \<bar>cos (radians (velocity_angle b))\<bar>
         \<and> \<bar>change_y b\<bar> = ball_speed b * \<bar>sin (radians (velocity_angle b))\<bar>))"

text \<open>What a call of \<open>Brick.change_properties\<close> does to the brick itself, and the score it
  awards: nothing for an unbreakable brick and for a brick whose latch is set.\<close>

definition hit_brick :: "brick \<Rightarrow> brick" where
  "hit_brick br =
     (if is_breakable br \<and> \<not> has_been_hit br then
        br\<lparr>has_been_hit := True, cur_texture_index := cur_texture_index br + 1, icon := None\<rparr>
      else br)"

definition hit_score :: "brick \<Rightarrow> int" where
  "hit_score br = (if is_breakable br \<and> \<not> has_been_hit br then score br else 0)"

text \<open>The calls that the level makes on one brick while the game runs:
  \<open>change_properties\<close> from a ball or a bullet, and \<open>update\<close> once a frame, with the
  results of its two collision tests. A call belongs to an overlap when it is a hit or
  an \<open>update\<close> that finds a ball or a bullet on the brick.\<close>

datatype brick_call = Hit | Update bool bool

fun overlapping :: "brick_call \<Rightarrow> bool" where
  "overlapping Hit = True"
| "overlapping (Update hits_ball hits_bullet) = (hits_ball \<or> hits_bullet)"

fun brick_calls :: "nat \<Rightarrow> brick_call list \<Rightarrow> level \<Rightarrow> level" where
  "brick_calls k [] l = l"
| "brick_calls k (Hit # cs) l = brick_calls k cs (Brick_change_properties k l)"
| "brick_calls k (Update hits_ball hits_bullet # cs) l =
     brick_calls k cs (Brick_update hits_ball hits_bullet k l)"


text \<open>The entry that \<open>get_high_scores\<close> reads from row \<open>i\<close> of \<open>create_high_scores\<close>.\<close>

definition seed_entry :: "nat \<Rightarrow> entry" where
  "seed_entry i =
     \<lparr>entry_name = (if i mod 2 = 0 then ''Freddy'' else ''BBB''),
      entry_level = str_nat (if i mod 2 = 0 then i div 2 else (i + 1) div 2),
      entry_score = int (i * 5000)\<rparr>"

text \<open>Every ball of the heap has a derived velocity.\<close>

definition all_derived :: "level \<Rightarrow> bool" where
  "all_derived l = (\<forall>j. velocity_derived (balls l j))"

section \<open>Example inputs\<close>

text \<open>A free ball of a level at horizontal position \<open>x\<close> with horizontal velocity
  \<open>cx\<close>, falling.\<close>

definition ball_at :: "real \<Rightarrow> real \<Rightarrow> ball" where
  "ball_at x cx =
     \<lparr>center_x = x, center_y = 40, width = 16, height = 16, ball_class = NormalBall,
      is_invincible = False, has_level = True, velocity_angle = 45, ball_speed = 600,
      change_x = cx, change_y = - 400\<rparr>"

text \<open>A playing field, the sizes of the images, a paddle 200 wide with its left edge at
  0, a single-stage brick worth 100, and a level around a paddle and a heap of \<open>n\<close> balls,
  all of them in the ball list.\<close>

definition example_boundary :: boundary where
  "example_boundary =
     \<lparr>boundary_center_x = 540, inner_left = 0, inner_right = 1080, inner_top = 800,
      inner_bottom = 0, is_fullscreen = False\<rparr>"

definition example_images :: images where
  "example_images = \<lparr>ball_image = (\<lambda>t. (16, 16)), paddle_image = (\<lambda>t. (200, 20))\<rparr>"

definition example_paddle :: paddle where
  "example_paddle =
     \<lparr>center_x = 100, center_y = 20, width = 200, height = 20, paddle_class = NormalPaddle,
      paddle_speed = 500, is_magnetic = False, activate_shooter = False, invincible_balls = 0,
      split_balls = 0, magnetic_ball_list = []\<rparr>"

definition example_brick :: brick where
  "example_brick =
     \<lparr>center_x = 300, center_y = 600, width = 75, height = 25, is_breakable = True,
      has_been_hit = False, is_safety_barrier = False, score = 100, letter = [], icon = None,
      cur_texture_index = 0, textures = 1\<rparr>"

definition example_window :: window where
  "example_window =
     \<lparr>window_score = 0, lives = 3, level_number = 1, display_score = 0, shown_view = None\<rparr>"

definition example_level :: "paddle \<Rightarrow> (nat \<Rightarrow> ball) \<Rightarrow> nat \<Rightarrow> (nat \<Rightarrow> brick) \<Rightarrow> nat \<Rightarrow> level" where
  "example_level p bs n ks m =
     \<lparr>balls = bs, next_ball = n, bricks = ks, next_brick = m,
      ball_list = [0..<n], brick_list = [0..<m], breakable_brick_list = [0..<m], icon_list = [],
      paddle = p, level_boundary = example_boundary, level_images = example_images,
      level_window = example_window, is_demo_level = False, game_over = False,
      level_complete = False, game_is_active = True, lost_a_life = False, bonus_added = False,
      load_next_level = False, bonus_score = 0, bonus_collection_order = [],
      elapsed_time = 0, elapsed_time_copy = 0\<rparr>"

text \<open>A ball of the given class at rest on the paddle at \<open>x\<close>.\<close>

definition ball_of :: "ball_type \<Rightarrow> real \<Rightarrow> ball" where
  "ball_of t x =
     \<lparr>center_x = x, center_y = 38, width = 16, height = 16, ball_class = t,
      is_invincible = (t = InvinciBall \<or> t = MagneticInviciBall), has_level = True,
      velocity_angle = 45, ball_speed = 550, change_x = 0, change_y = - 400\<rparr>"

text \<open>The level in which an invincible ball lands on a paddle with three charges, magnetic
  or not.\<close>

definition landing_level :: "bool \<Rightarrow> level" where
  "landing_level m =
     example_level (example_paddle\<lparr>is_magnetic := m, invincible_balls := 3\<rparr>)
       (\<lambda>j. ball_of InvinciBall 40) 1 (\<lambda>k. example_brick) 1"

text \<open>A level with the given balls attached to a magnetic paddle.\<close>

definition attached_level :: "ball list \<Rightarrow> level" where
  "attached_level bs =
     example_level (example_paddle\<lparr>is_magnetic := True, magnetic_ball_list := [0..<length bs]\<rparr>)
       (\<lambda>j. if j < length bs then bs ! j else ball_of MagneticNormalBall 100) (length bs)
       (\<lambda>k. example_brick) 1"

text \<open>An unbreakable brick, the safety barrier (a breakable brick with no texture list,
  1080 wide and 2 high), and a level with the given bricks and an invincible ball that
  moves right and down.\<close>

definition unbreakable_brick :: brick where
  "unbreakable_brick = example_brick\<lparr>is_breakable := False, score := 0\<rparr>"

definition safety_barrier :: brick where
  "safety_barrier =
     example_brick\<lparr>center_x := 540, center_y := 7, width := 1080, height := 2,
       is_safety_barrier := True, score := 0, textures := 0\<rparr>"

definition wall_level :: "brick list \<Rightarrow> level" where
  "wall_level ks =
     example_level example_paddle (\<lambda>j. (ball_of InvinciBall 300)\<lparr>change_x := 300\<rparr>) 1
       (\<lambda>k. if k < length ks then ks ! k else example_brick) (length ks)"



text \<open>A level with one brick and one ball, and a frame in which the last brick breaks and
  the last ball falls out of the field.\<close>

definition last_brick_level :: level where
  "last_brick_level = example_level example_paddle (\<lambda>j. ball_of NormalBall 100) 1 (\<lambda>k. example_brick) 1"

definition lose_everything :: "level \<Rightarrow> level" where
  "lose_everything l = l\<lparr>ball_list := [], brick_list := [], breakable_brick_list := []\<rparr>"

text \<open>A high scores file with twelve rows, two of them with the same score.\<close>

definition example_file :: "string list" where
  "example_file =
     [''name,level,score,datetime'' @ [CHR 0x0A],
      ''Ann,2,700,Mon'' @ [CHR 0x0A],
      ''Bob,9,90000,Tue'' @ [CHR 0x0A],
      ''Cy,1,100,Wed'' @ [CHR 0x0A],
      ''Dee,3,700,Thu'' @ [CHR 0x0A],
      ''Eli,4,5000,Fri'' @ [CHR 0x0A],
      ''Fay,1,50,Sat'' @ [CHR 0x0A],
      ''Gus,5,6000,Sun'' @ [CHR 0x0A],
      ''Hal,6,8000,Mon'' @ [CHR 0x0A],
      ''Ida,7,9000,Tue'' @ [CHR 0x0A],
      ''Jo,8,12000,Wed'' @ [CHR 0x0A],
      ''Kim,2,300,Thu'' @ [CHR 0x0A],
      ''Lu,1,20,Fri'' @ [CHR 0x0A]]"

section \<open>Properties of the velocity model\<close>

lemma set_velocity_speed_range:
  "BALL_MIN_SPEED \<le> ball_speed (set_velocity b) \<and> ball_speed (set_velocity b) \<le> BALL_MAX_SPEED"
  by (simp add: set_velocity_def BALL_MIN_SPEED_def BALL_MAX_SPEED_def Let_def)

lemma ball_speed_set_velocity:
  "ball_speed (set_velocity b) = min BALL_MAX_SPEED (max BALL_MIN_SPEED (ball_speed b))"
  by (simp add: set_velocity_def BALL_MIN_SPEED_def BALL_MAX_SPEED_def Let_def min_def max_def)

lemma velocity_angle_set_velocity: "velocity_angle (set_velocity b) = velocity_angle b"
  by (simp add: set_velocity_def Let_def)

text \<open>
  Claim C1, as the code has it. With \<open>d = ball.center_x - paddle.left\<close> and \<open>W\<close> the width
  of the paddle, \<open>change_velocity\<close> takes the middle zone to be 20 wide, from \<open>W/2 - 10\<close>
  to \<open>W/2 + 10\<close>: for \<open>d < W/2 - 10\<close> the new angle is \<open>180 - min(25 + d, 70)\<close> and the
  speed is the old one plus \<open>40 - d\<close>, clamped to the limits; for
  \<open>W/2 - 10 \<le> d \<le> W/2 + 10\<close> the new angle is 55 when the ball moves right
  (\<open>change_x > 0\<close>) and 125 otherwise, and the speed is the old one minus 20, clamped.
\<close>

theorem change_velocity_zones:
  fixes b :: ball and paddle_left paddle_width :: real
  defines "d \<equiv> center_x b - paddle_left"
  defines "r \<equiv> change_velocity paddle_left paddle_width b"
  shows "(d < paddle_width / 2 - 10 \<longrightarrow>
            velocity_angle r = 180 - min (25 + d) 70
          \<and> ball_speed r = min BALL_MAX_SPEED (max BALL_MIN_SPEED (ball_speed b + (40 - d))))
       \<and> (paddle_width / 2 - 10 \<le> d \<and> d \<le> paddle_width / 2 + 10 \<longrightarrow>
            velocity_angle r = (if change_x b > 0 then 55 else 125)
          \<and> ball_speed r = min BALL_MAX_SPEED (max BALL_MIN_SPEED (ball_speed b - 20)))"
proof (intro conjI impI)
  assume "d < paddle_width / 2 - 10"
  then have r: "r = set_velocity (b\<lparr>velocity_angle := 180 - (if 25 + d > 70 then 70 else 25 + d),
                       ball_speed := ball_speed b + (40 - d)\<rparr>)"
    by (simp add: r_def d_def change_velocity_def Let_def)
  show "velocity_angle r = 180 - min (25 + d) 70"
    by (simp add: r velocity_angle_set_velocity min_def)
  show "ball_speed r = min BALL_MAX_SPEED (max BALL_MIN_SPEED (ball_speed b + (40 - d)))"
    by (simp add: r ball_speed_set_velocity)
next
  assume "paddle_width / 2 - 10 \<le> d \<and> d \<le> paddle_width / 2 + 10"
  then have r: "r = set_velocity (b\<lparr>velocity_angle := (if change_x b > 0 then 55 else 180 - 55),
                       ball_speed := ball_speed b - 20\<rparr>)"
    by (simp add: r_def d_def change_velocity_def Let_def)
  show "velocity_angle r = (if change_x b > 0 then 55 else 125)"
    by (simp add: r velocity_angle_set_velocity)
  show "ball_speed r = min BALL_MAX_SPEED (max BALL_MIN_SPEED (ball_speed b - 20))"
    by (simp add: r ball_speed_set_velocity)
qed

text \<open>On a paddle 200 wide: a hit at \<open>d = 5\<close> gives the angle 150 and adds 35 to the speed
  of 600; a hit at the centre by a ball moving right gives the angle 55 and takes 20 off.\<close>

theorem change_velocity_zones_witness:
  "(5::real) < 200 / 2 - 10
   \<and> velocity_angle (change_velocity 0 200 (ball_at 5 (- 300))) = 180 - min (25 + 5) 70
   \<and> ball_speed (change_velocity 0 200 (ball_at 5 (- 300))) = 635
   \<and> (200::real) / 2 - 10 \<le> 100 \<and> (100::real) \<le> 200 / 2 + 10
   \<and> velocity_angle (change_velocity 0 200 (ball_at 100 300)) = 55
   \<and> ball_speed (change_velocity 0 200 (ball_at 100 300)) = 580"
  using change_velocity_zones [of "ball_at 5 (- 300)" 0 200]
    change_velocity_zones [of "ball_at 100 300" 0 200]
  by (simp add: ball_at_def BALL_MIN_SPEED_def BALL_MAX_SPEED_def)

text \<open>Claim C1 as stated puts the end of the left zone at \<open>W/2 - m/2\<close> with \<open>m = 10\<close>,
  that is at \<open>W/2 - 5\<close>. On a paddle 200 wide a ball moving right that hits at \<open>d = 92\<close>
  is then in the left zone, with the angle \<open>180 - 70\<close> and the speed
  \<open>600 + (40 - 92)\<close> clamped; the code has it in the middle zone, with the angle 55
  and the speed 580.\<close>

theorem change_velocity_half_width_counterexample:
  "(92::real) < 200 / 2 - 10 / 2
   \<and> velocity_angle (change_velocity 0 200 (ball_at 92 300)) = 55
   \<and> (55::real) \<noteq> 180 - min (25 + 92) 70
   \<and> ball_speed (change_velocity 0 200 (ball_at 92 300)) = 580
   \<and> (580::real) \<noteq> min BALL_MAX_SPEED (max BALL_MIN_SPEED (600 + (40 - 92)))"
  by (simp add: change_velocity_def ball_at_def set_velocity_def Let_def BALL_MIN_SPEED_def BALL_MAX_SPEED_def)

section \<open>The speed limits\<close>

lemma within_limits_set_velocity: "within_limits (ball_speed (set_velocity b))"
  using set_velocity_speed_range [of b] by (simp add: within_limits_def)

lemma within_limits_change_velocity: "within_limits (ball_speed (change_velocity pl pw b))"
  by (simp add: change_velocity_def Let_def within_limits_set_velocity)

lemma ball_speed_change_speed: 
  "ball_speed (change_speed action b) =
     ball_speed (set_velocity (if action = ''increase'' then b\<lparr>ball_speed := ball_speed b + speed_increment\<rparr>
                else if action = ''decrease'' then b\<lparr>ball_speed := ball_speed b - speed_decrement\<rparr>
                else b))"
  by (simp add: change_speed_def Let_def)

lemma within_limits_change_speed: "within_limits (ball_speed (change_speed action b))"
  by (simp only: ball_speed_change_speed within_limits_set_velocity)

lemma within_limits_Ball_init: "within_limits (ball_speed (Ball_init t l))"
  by (simp add: Ball_init_def within_limits_set_velocity)

lemma within_limits_drop_ball: "within_limits (ball_speed (drop_ball b))"
  by (simp add: drop_ball_def within_limits_set_velocity)

lemma paddle_side_hit_speed:
  "ball_speed (collides_with_paddle_moving_horizontally hit p b) = ball_speed b
   \<or> within_limits (ball_speed (collides_with_paddle_moving_horizontally hit p b))"
  by (simp add: collides_with_paddle_moving_horizontally_def Let_def within_limits_set_velocity
      set_left_def set_right_def)

lemma kept_or_clamped_refl: "kept_or_clamped l l"
  by (simp add: kept_or_clamped_def)

lemma kept_or_clamped_trans:
  "kept_or_clamped l l' \<Longrightarrow> kept_or_clamped l' l'' \<Longrightarrow> kept_or_clamped l l''"
  unfolding kept_or_clamped_def by metis

lemma kept_or_clamped_update:
  assumes "balls l' = (balls l)(i := b)" and "ball_speed b = ball_speed (balls l i) \<or> within_limits (ball_speed b)"
  shows "kept_or_clamped l l'"
  using assms by (simp add: kept_or_clamped_def)

lemma kept_or_clamped_same: "balls l' = balls l \<Longrightarrow> kept_or_clamped l l'"
  by (simp add: kept_or_clamped_def)

lemma ball_speed_change_horizontal_velocity:
  "ball_speed (change_horizontal_velocity p b) = ball_speed b"
  by (simp add: change_horizontal_velocity_def)

lemma kept_or_clamped_convert_to: "kept_or_clamped l (snd (convert_to t i l))"
  by (rule kept_or_clamped_update [where i = "next_ball l"
        and b = "change_horizontal_velocity (paddle l) ((Ball_init t l)\<lparr>center_x := center_x (balls l i), center_y := center_y (balls l i)\<rparr>)"])
     (simp_all add: convert_to_def Let_def remove_ball_from_sprite_lists_def
        ball_speed_change_horizontal_velocity within_limits_Ball_init)

lemma kept_or_clamped_split_into_two: "kept_or_clamped l (split_into_two i l)"
  by (rule kept_or_clamped_update [where i = "next_ball l"
        and b = "(Ball_init (ball_class (balls l i)) l)\<lparr>center_x := center_x (balls l i), center_y := center_y (balls l i),
             change_x := - change_x (balls l i), change_y := change_y (balls l i)\<rparr>"])
     (simp_all add: split_into_two_def Let_def within_limits_Ball_init)

lemma kept_or_clamped_change_velocity_at: "kept_or_clamped l (change_velocity_at i l)"
  by (rule kept_or_clamped_update [where i = i and b = "change_velocity (left (paddle l)) (width (paddle l)) (balls l i)"])
     (simp_all add: change_velocity_at_def within_limits_change_velocity)

lemma kept_or_clamped_change_speed_at: "kept_or_clamped l (change_speed_at a i l)"
  by (rule kept_or_clamped_update [where i = i and b = "change_speed a (balls l i)"])
     (simp_all add: change_speed_at_def within_limits_change_speed)

lemma kept_or_clamped_fold:
  assumes "\<And>x l. kept_or_clamped l (f x l)"
  shows "kept_or_clamped l (fold f xs l)"
proof (induction xs arbitrary: l)
  case Nil
  show ?case by (simp add: kept_or_clamped_refl)
next
  case (Cons x xs)
  have "kept_or_clamped l (f x l)" by (rule assms)
  moreover have "kept_or_clamped (f x l) (fold f xs (f x l))" by (rule Cons.IH)
  ultimately show ?case by (simp add: kept_or_clamped_trans)
qed

lemma kept_or_clamped_change_speed_of_all: "kept_or_clamped l (change_speed_of_all a l)"
  unfolding change_speed_of_all_def by (rule kept_or_clamped_fold) (rule kept_or_clamped_change_speed_at)


lemma kept_or_clamped_paddle: "kept_or_clamped l l' \<Longrightarrow> kept_or_clamped l (l'\<lparr>paddle := p\<rparr>)"
  by (simp add: kept_or_clamped_def)

lemma kept_or_clamped_convert_to':
  "kept_or_clamped l l1 \<Longrightarrow> kept_or_clamped l (snd (convert_to t i l1))"
  by (rule kept_or_clamped_trans [OF _ kept_or_clamped_convert_to])

lemma kept_or_clamped_split_into_two':
  "kept_or_clamped l l1 \<Longrightarrow> kept_or_clamped l (split_into_two i l1)"
  by (rule kept_or_clamped_trans [OF _ kept_or_clamped_split_into_two])

lemma kept_or_clamped_change_velocity_at':
  "kept_or_clamped l l1 \<Longrightarrow> kept_or_clamped l (change_velocity_at i l1)"
  by (rule kept_or_clamped_trans [OF _ kept_or_clamped_change_velocity_at])

lemmas kept_or_clamped_steps =
  kept_or_clamped_refl kept_or_clamped_paddle kept_or_clamped_convert_to'
  kept_or_clamped_split_into_two' kept_or_clamped_change_velocity_at'

lemma kept_or_clamped_Ball_change_properties': 
  "kept_or_clamped l0 l \<Longrightarrow> kept_or_clamped l0 (Ball_change_properties i l)"
  by (simp add: Ball_change_properties_def Let_def split_beta kept_or_clamped_steps)

lemma kept_or_clamped_Ball_change_properties: "kept_or_clamped l (Ball_change_properties i l)"
  by (rule kept_or_clamped_Ball_change_properties' [OF kept_or_clamped_refl])

lemma kept_or_clamped_release_one: "kept_or_clamped l (release_one i l)"
  by (simp add: release_one_def Let_def split_beta kept_or_clamped_steps)

lemma kept_or_clamped_release_magnetic_balls: "kept_or_clamped l (release_magnetic_balls l)"
  by (simp add: release_magnetic_balls_def Let_def kept_or_clamped_paddle
      kept_or_clamped_fold kept_or_clamped_release_one)

lemma kept_or_clamped_paddle_top:
  "kept_or_clamped l (collides_with_paddle_moving_vertically hit i l)"
proof -
  have a: "kept_or_clamped l (l\<lparr>balls := (balls l)(i := b)\<rparr>)"
    if "ball_speed b = ball_speed (balls l i) \<or> within_limits (ball_speed b)" for b
    using that by (simp add: kept_or_clamped_def)
  show ?thesis
    by (simp add: collides_with_paddle_moving_vertically_def Let_def kept_or_clamped_refl
        a within_limits_set_velocity set_top_def set_bottom_def
        kept_or_clamped_Ball_change_properties')
qed

lemma kept_or_clamped_Lengthen: "kept_or_clamped l (LengthenPaddleIcon_activate_icon_property l)"
  unfolding LengthenPaddleIcon_activate_icon_property_def Let_def
  by (rule kept_or_clamped_trans [OF _ kept_or_clamped_change_speed_of_all])
     (rule kept_or_clamped_paddle [OF kept_or_clamped_refl])

lemma kept_or_clamped_SlowDown: "kept_or_clamped l (SlowDownBallsIcon_activate_icon_property l)"
  by (simp add: SlowDownBallsIcon_activate_icon_property_def kept_or_clamped_change_speed_of_all)

lemma kept_or_clamped_SpeedUp: "kept_or_clamped l (SpeedUpBallsIcon_activate_icon_property l)"
  unfolding SpeedUpBallsIcon_activate_icon_property_def Let_def
  by (rule kept_or_clamped_trans [OF _ kept_or_clamped_change_speed_of_all])
     (rule kept_or_clamped_trans [OF _ kept_or_clamped_release_magnetic_balls],
      rule kept_or_clamped_paddle [OF kept_or_clamped_refl])

lemma kept_or_clamped_drop:
  "kept_or_clamped l l1 \<Longrightarrow> kept_or_clamped l (l1\<lparr>balls := (balls l1)(j := drop_ball b)\<rparr>)"
  by (simp add: kept_or_clamped_def within_limits_drop_ball)

lemma kept_or_clamped_Shorten_loop:
  "kept_or_clamped l0 l \<Longrightarrow> kept_or_clamped l0 (ShortenPaddleIcon_loop n l)"
proof (induction n l rule: ShortenPaddleIcon_loop.induct)
  case (1 n l)
  show ?case
  proof (cases "n < length (magnetic_ball_list (paddle l))")
    case False
    then show ?thesis
      using "1.prems" by (subst ShortenPaddleIcon_loop.simps) simp
  next
    case True
    let ?ball = "magnetic_ball_list (paddle l) ! n"
    show ?thesis
    proof (cases "center_x (balls l ?ball) < left (paddle l) \<or> center_x (balls l ?ball) > right (paddle l)")
      case False
      have "kept_or_clamped l0 (ShortenPaddleIcon_loop (Suc n) l)"
        by (rule "1.IH"(2) [OF True refl False "1.prems"])
      with True False show ?thesis
        by (subst ShortenPaddleIcon_loop.simps) (simp add: Let_def)
    next
      case out: True
      let ?r = "if is_invincible (balls l ?ball) then convert_to InvinciBall ?ball l
                else convert_to NormalBall ?ball l"
      let ?l1 = "snd ?r"
      let ?l2 = "?l1\<lparr>balls := (balls ?l1)(fst ?r := drop_ball (balls ?l1 (fst ?r)))\<rparr>"
      let ?l3 = "?l2\<lparr>paddle := (paddle ?l2)\<lparr>magnetic_ball_list := remove1 ?ball (magnetic_ball_list (paddle ?l2))\<rparr>\<rparr>"
      have "kept_or_clamped l0 ?l1"
        by (simp add: kept_or_clamped_convert_to' "1.prems")
      then have "kept_or_clamped l0 ?l3"
        by (intro kept_or_clamped_paddle kept_or_clamped_drop)
      then have "kept_or_clamped l0 (ShortenPaddleIcon_loop (Suc n) ?l3)"
        by (rule "1.IH"(1) [OF True refl out refl refl refl refl refl])
      with True out show ?thesis
        by (subst ShortenPaddleIcon_loop.simps) (simp add: Let_def)
    qed
  qed
qed

lemma kept_or_clamped_Shorten: "kept_or_clamped l (ShortenPaddleIcon_activate_icon_property l)"
  unfolding ShortenPaddleIcon_activate_icon_property_def Let_def
  by (rule kept_or_clamped_Shorten_loop) (rule kept_or_clamped_paddle [OF kept_or_clamped_refl])

lemma kept_or_clamped_InvinciBallIcon_loop:
  "kept_or_clamped l0 l \<Longrightarrow> kept_or_clamped l0 (InvinciBallIcon_loop n l)"
proof (induction n l rule: InvinciBallIcon_loop.induct)
  case (1 n l)
  show ?case
  proof (cases "n < length (magnetic_ball_list (paddle l))")
    case False
    then show ?thesis
      using "1.prems" by (subst InvinciBallIcon_loop.simps) simp
  next
    case True
    let ?ball = "magnetic_ball_list (paddle l) ! n"
    show ?thesis
    proof (cases "is_invincible (balls l ?ball)")
      case True
      have "kept_or_clamped l0 (InvinciBallIcon_loop (Suc n) l)"
        using "1.IH"(2) [OF \<open>n < length (magnetic_ball_list (paddle l))\<close> refl _ "1.prems"] True by simp
      with True \<open>n < length (magnetic_ball_list (paddle l))\<close> show ?thesis
        by (subst InvinciBallIcon_loop.simps) (simp add: Let_def)
    next
      case False
      let ?r = "convert_to MagneticInviciBall ?ball l"
      let ?l1 = "snd ?r"
      let ?l2 = "?l1\<lparr>paddle := (paddle ?l1)\<lparr>magnetic_ball_list := magnetic_ball_list (paddle ?l1) @ [fst ?r]\<rparr>\<rparr>"
      let ?l3 = "?l2\<lparr>paddle := (paddle ?l2)\<lparr>magnetic_ball_list := remove1 ?ball (magnetic_ball_list (paddle ?l2))\<rparr>\<rparr>"
      let ?l4 = "?l3\<lparr>paddle := (paddle ?l3)\<lparr>invincible_balls := invincible_balls (paddle ?l3) - 1\<rparr>\<rparr>"
      have "kept_or_clamped l0 ?l1"
        by (simp add: kept_or_clamped_convert_to' "1.prems")
      then have "kept_or_clamped l0 ?l4"
        by (intro kept_or_clamped_paddle)
      then have "kept_or_clamped l0 (InvinciBallIcon_loop (Suc n) ?l4)"
        by (rule "1.IH"(1) [OF True refl False refl refl refl refl refl refl])
      with True False show ?thesis
        by (subst InvinciBallIcon_loop.simps) (simp add: Let_def)
    qed
  qed
qed

lemma kept_or_clamped_InvinciBallIcon: "kept_or_clamped l (InvinciBallIcon_activate_icon_property l)"
  unfolding InvinciBallIcon_activate_icon_property_def
  by (rule kept_or_clamped_InvinciBallIcon_loop) (rule kept_or_clamped_paddle [OF kept_or_clamped_refl])

text \<open>
  Claim C3. Every operation that writes the speed of a ball ends with \<open>set_velocity\<close>,
  which clamps it, so the speed stored afterwards lies between \<open>BALL_MIN_SPEED = 550\<close>
  and \<open>BALL_MAX_SPEED = 850\<close>: after \<open>set_velocity\<close> itself, after the bounce off the top
  of the paddle (\<open>change_velocity\<close>), after \<open>change_speed\<close> of the speed-up, slow-down and
  lengthen icons, for the ball that \<open>__init__\<close> makes in a conversion or a split, and
  for the ball that the shorten icon drops. A hit on the side of the paddle either
  leaves the speed as it was (the two branches that only reflect) or clamps it. For the
  operations on a whole level (the landing on the paddle, the conversions, the release
  of the magnetic balls and the five icons that touch balls) every ball of the heap has
  afterwards the speed it had before or a speed within the limits.
\<close>

theorem ball_speed_within_limits:
  "BALL_MIN_SPEED = 550 \<and> BALL_MAX_SPEED = 850
   \<and> within_limits (ball_speed (set_velocity b))
   \<and> within_limits (ball_speed (change_velocity paddle_left paddle_width b))
   \<and> within_limits (ball_speed (change_speed action b))
   \<and> within_limits (ball_speed (Ball_init t l))
   \<and> within_limits (ball_speed (drop_ball b))
   \<and> (ball_speed (collides_with_paddle_moving_horizontally hit p b) = ball_speed b
        \<or> within_limits (ball_speed (collides_with_paddle_moving_horizontally hit p b)))
   \<and> kept_or_clamped l (collides_with_paddle_moving_vertically hit i l)
   \<and> kept_or_clamped l (Ball_change_properties i l)
   \<and> kept_or_clamped l (snd (convert_to t i l))
   \<and> kept_or_clamped l (split_into_two i l)
   \<and> kept_or_clamped l (release_magnetic_balls l)
   \<and> kept_or_clamped l (LengthenPaddleIcon_activate_icon_property l)
   \<and> kept_or_clamped l (ShortenPaddleIcon_activate_icon_property l)
   \<and> kept_or_clamped l (SpeedUpBallsIcon_activate_icon_property l)
   \<and> kept_or_clamped l (SlowDownBallsIcon_activate_icon_property l)
   \<and> kept_or_clamped l (InvinciBallIcon_activate_icon_property l)"
proof -
  have "BALL_MIN_SPEED = 550 \<and> BALL_MAX_SPEED = 850"
    by (simp add: BALL_MIN_SPEED_def BALL_MAX_SPEED_def)
  then show ?thesis
    by (intro conjI within_limits_set_velocity within_limits_change_velocity
        within_limits_change_speed within_limits_Ball_init within_limits_drop_ball
        paddle_side_hit_speed kept_or_clamped_paddle_top kept_or_clamped_Ball_change_properties
        kept_or_clamped_convert_to kept_or_clamped_split_into_two
        kept_or_clamped_release_magnetic_balls kept_or_clamped_Lengthen kept_or_clamped_Shorten
        kept_or_clamped_SpeedUp kept_or_clamped_SlowDown kept_or_clamped_InvinciBallIcon) simp_all
qed

text \<open>A ball with the speed 600: the side of the paddle adds 100 and the speed-up icon 50,
  the slow-down icon takes 50 off, and the shorten icon drops it at 200, which is clamped
  to 550.\<close>

theorem ball_speed_within_limits_witness:
  "ball_speed (collides_with_paddle_moving_horizontally True
       \<lparr>center_x = 100, center_y = 20, width = 200, height = 20, paddle_class = NormalPaddle,
        paddle_speed = 500, is_magnetic = False, activate_shooter = False, invincible_balls = 0,
        split_balls = 0, magnetic_ball_list = []\<rparr> (ball_at 5 (- 300))) = 700
   \<and> ball_speed (change_speed ''increase'' (ball_at 5 (- 300))) = 650
   \<and> ball_speed (change_speed ''decrease'' (ball_at 5 (- 300))) = 550
   \<and> ball_speed (drop_ball (ball_at 5 (- 300))) = 550
   \<and> within_limits (ball_speed (drop_ball (ball_at 5 (- 300))))"
proof -
  have "within_limits (ball_speed (drop_ball (ball_at 5 (- 300))))"
    using ball_speed_within_limits [of "ball_at 5 (- 300)"] by simp
  then show ?thesis
    by (simp add: collides_with_paddle_moving_horizontally_def ball_speed_change_speed
        ball_speed_set_velocity drop_ball_def ball_at_def speed_increment_def speed_decrement_def
        BALL_MIN_SPEED_def BALL_MAX_SPEED_def)
qed

section \<open>Changing the speed keeps the direction\<close>

lemma radians_45: "radians 45 = pi / 4"
  by (simp add: radians_def)

lemma cos_radians_45_pos: "cos (radians 45) > 0"
  by (simp add: radians_45 cos_45)

lemma sin_radians_45_pos: "sin (radians 45) > 0"
  by (simp add: radians_45 sin_45)

lemma velocity_derived_cos:
  assumes "velocity_derived b" and "change_x b \<noteq> 0"
  shows "cos (radians (velocity_angle b)) \<noteq> 0"
proof (cases "velocity_angle b = 45")
  case True
  then show ?thesis using cos_radians_45_pos by simp
next
  case False
  with assms have "\<bar>change_x b\<bar> = ball_speed b * \<bar>cos (radians (velocity_angle b))\<bar>"
    by (simp add: velocity_derived_def)
  with assms(2) show ?thesis by auto
qed

lemma velocity_derived_sin:
  assumes "velocity_derived b" and "change_y b \<noteq> 0"
  shows "sin (radians (velocity_angle b)) \<noteq> 0"
proof (cases "velocity_angle b = 45")
  case True
  then show ?thesis using sin_radians_45_pos by simp
next
  case False
  with assms have "\<bar>change_y b\<bar> = ball_speed b * \<bar>sin (radians (velocity_angle b))\<bar>"
    by (simp add: velocity_derived_def)
  with assms(2) show ?thesis by auto
qed

lemma set_velocity_speed_pos: "ball_speed (set_velocity b) > 0"
  using set_velocity_speed_range [of b] by (simp add: BALL_MIN_SPEED_def)

lemma change_x_set_velocity:
  "change_x (set_velocity b) = ball_speed (set_velocity b) * cos (radians (velocity_angle b))"
  by (simp add: set_velocity_def Let_def)

lemma change_y_set_velocity:
  "change_y (set_velocity b) = ball_speed (set_velocity b) * sin (radians (velocity_angle b))"
  by (simp add: set_velocity_def Let_def)

text \<open>The ball of change_speed before the velocity is derived again.\<close>

lemma change_speed_components:
  fixes action :: string and b :: ball
  defines "b1 \<equiv> (if action = ''increase'' then b\<lparr>ball_speed := ball_speed b + speed_increment\<rparr>
                else if action = ''decrease'' then b\<lparr>ball_speed := ball_speed b - speed_decrement\<rparr>
                else b)"
  defines "vx \<equiv> change_x (set_velocity b1)" and "vy \<equiv> change_y (set_velocity b1)"
  shows "change_x (change_speed action b) =
           (if (change_x b < 0 \<and> vx > 0) \<or> (change_x b > 0 \<and> vx < 0) then - vx else vx)"
    and "change_y (change_speed action b) =
           (if (change_y b < 0 \<and> vy > 0) \<or> (change_y b > 0 \<and> vy < 0) then - vy else vy)"
    and "ball_speed (change_speed action b) = ball_speed (set_velocity b1)"
    and "velocity_angle b1 = velocity_angle b"
  by (simp_all add: change_speed_def Let_def b1_def vx_def vy_def)

lemma sgn_kept:
  fixes old new :: real
  assumes "old \<noteq> 0" and "new \<noteq> 0"
  shows "sgn (if (old < 0 \<and> new > 0) \<or> (old > 0 \<and> new < 0) then - new else new) = sgn old"
  using assms by (auto simp: sgn_if)

text \<open>
  Claim C7. For every ball whose \<open>change_x\<close> and \<open>change_y\<close> are both nonzero,
  \<open>change_speed("increase")\<close> adds the increment 50 to the speed and
  \<open>change_speed("decrease")\<close> takes the decrement 50 off, the result being clamped to the
  limits, and in both cases \<open>change_x\<close> and \<open>change_y\<close> have the sign afterwards that they
  had before. The ball is one the program makes: its velocity is derived from its speed
  and angle, or it still has the angle of \<open>__init__\<close> (\<open>velocity_derived\<close>).
\<close>

theorem change_speed_keeps_direction:
  assumes "velocity_derived b" and "change_x b \<noteq> 0" and "change_y b \<noteq> 0"
  shows "ball_speed (change_speed ''increase'' b)
           = min BALL_MAX_SPEED (max BALL_MIN_SPEED (ball_speed b + 50))
       \<and> ball_speed (change_speed ''decrease'' b)
           = min BALL_MAX_SPEED (max BALL_MIN_SPEED (ball_speed b - 50))
       \<and> sgn (change_x (change_speed ''increase'' b)) = sgn (change_x b)
       \<and> sgn (change_y (change_speed ''increase'' b)) = sgn (change_y b)
       \<and> sgn (change_x (change_speed ''decrease'' b)) = sgn (change_x b)
       \<and> sgn (change_y (change_speed ''decrease'' b)) = sgn (change_y b)"
proof -
  have c: "cos (radians (velocity_angle b)) \<noteq> 0"
    using assms(1,2) by (rule velocity_derived_cos)
  have s: "sin (radians (velocity_angle b)) \<noteq> 0"
    using assms(1,3) by (rule velocity_derived_sin)
  have dir: "sgn (change_x (change_speed action b)) = sgn (change_x b)
           \<and> sgn (change_y (change_speed action b)) = sgn (change_y b)" for action
  proof -
    let ?b1 = "if action = ''increase'' then b\<lparr>ball_speed := ball_speed b + speed_increment\<rparr>
                else if action = ''decrease'' then b\<lparr>ball_speed := ball_speed b - speed_decrement\<rparr>
                else b"
    have angle: "velocity_angle ?b1 = velocity_angle b" by simp
    have nx: "change_x (set_velocity ?b1) \<noteq> 0"
      using c set_velocity_speed_pos [of ?b1] by (simp add: change_x_set_velocity angle del: if_split)
    have ny: "change_y (set_velocity ?b1) \<noteq> 0"
      using s set_velocity_speed_pos [of ?b1] by (simp add: change_y_set_velocity angle del: if_split)
    have "sgn (change_x (change_speed action b)) = sgn (change_x b)"
      unfolding change_speed_components(1) by (rule sgn_kept [OF assms(2) nx])
    moreover have "sgn (change_y (change_speed action b)) = sgn (change_y b)"
      unfolding change_speed_components(2) by (rule sgn_kept [OF assms(3) ny])
    ultimately show ?thesis by simp
  qed
  have "ball_speed (change_speed ''increase'' b) = min BALL_MAX_SPEED (max BALL_MIN_SPEED (ball_speed b + 50))"
    by (simp add: change_speed_components(3) ball_speed_set_velocity speed_increment_def)
  moreover have "ball_speed (change_speed ''decrease'' b) = min BALL_MAX_SPEED (max BALL_MIN_SPEED (ball_speed b - 50))"
    by (simp add: change_speed_components(3) ball_speed_set_velocity speed_decrement_def)
  ultimately show ?thesis using dir by simp
qed

text \<open>A ball made by a conversion on the left half of the paddle: angle 45, speed 600,
  moving left and down.\<close>

theorem change_speed_keeps_direction_witness:
  "velocity_derived (ball_at 5 (- 300)) \<and> change_x (ball_at 5 (- 300)) \<noteq> 0 \<and> change_y (ball_at 5 (- 300)) \<noteq> 0
   \<and> ball_speed (change_speed ''increase'' (ball_at 5 (- 300))) = 650
   \<and> ball_speed (change_speed ''decrease'' (ball_at 5 (- 300))) = 550
   \<and> sgn (change_x (change_speed ''increase'' (ball_at 5 (- 300)))) = - 1
   \<and> sgn (change_y (change_speed ''increase'' (ball_at 5 (- 300)))) = - 1
   \<and> sgn (change_x (change_speed ''decrease'' (ball_at 5 (- 300)))) = - 1
   \<and> sgn (change_y (change_speed ''decrease'' (ball_at 5 (- 300)))) = - 1"
  using change_speed_keeps_direction [of "ball_at 5 (- 300)"]
  by (simp add: velocity_derived_def ball_at_def BALL_MIN_SPEED_def BALL_MAX_SPEED_def)

section \<open>Landing on the paddle\<close>

lemma convert_to_fields:
  "fst (convert_to t i l) = next_ball l"
  "next_ball (snd (convert_to t i l)) = Suc (next_ball l)"
  "ball_list (snd (convert_to t i l)) = removeAll i (ball_list l @ [next_ball l])"
  "balls (snd (convert_to t i l)) =
     (balls l)(next_ball l := change_horizontal_velocity (paddle l)
        ((Ball_init t l)\<lparr>center_x := center_x (balls l i), center_y := center_y (balls l i)\<rparr>))"
  by (simp_all add: convert_to_def Let_def remove_ball_from_sprite_lists_def)

lemma Ball_init_class: "ball_class (Ball_init t l) = t"
  and Ball_init_invincible: "is_invincible (Ball_init t l) = (t = InvinciBall \<or> t = MagneticInviciBall)"
  by (simp_all add: Ball_init_def set_velocity_def Let_def)

lemma change_horizontal_velocity_fields:
  "ball_class (change_horizontal_velocity p b) = ball_class b"
  "is_invincible (change_horizontal_velocity p b) = is_invincible b"
  "center_x (change_horizontal_velocity p b) = center_x b"
  "center_y (change_horizontal_velocity p b) = center_y b"
  by (simp_all add: change_horizontal_velocity_def)


text \<open>
  Claim C9. When a ball that is already invincible lands on the top of the paddle while
  \<open>paddle.invincible_balls > 0\<close>, \<open>change_properties\<close> takes one charge off and does not
  convert the ball to an invincible one: no ball is made for that step. The only ball
  made is the magnetic counterpart on a magnetic paddle, or the second ball of a split;
  on a paddle that is not magnetic the ball itself bounces and stays in the ball list.
\<close>

theorem invincible_landing_consumes_charge:
  fixes l :: level and i :: nat
  defines "l' \<equiv> Ball_change_properties i l"
  assumes inv: "is_invincible (balls l i)"
    and charge: "invincible_balls (paddle l) > 0"
    and alloc: "i < next_ball l"
  shows "invincible_balls (paddle l') = invincible_balls (paddle l) - 1
       \<and> next_ball l' = (if is_magnetic (paddle l) \<or> split_balls (paddle l) > 0
                         then Suc (next_ball l) else next_ball l)
       \<and> (is_magnetic (paddle l) \<longrightarrow>
            ball_class (balls l' (next_ball l)) = MagneticInviciBall
          \<and> magnetic_ball_list (paddle l') = magnetic_ball_list (paddle l) @ [next_ball l])
       \<and> (\<not> is_magnetic (paddle l) \<longrightarrow>
            balls l' i = change_velocity (left (paddle l)) (width (paddle l)) (balls l i)
          \<and> (i \<in> set (ball_list l') \<longleftrightarrow> i \<in> set (ball_list l)))"
proof (cases "is_magnetic (paddle l)")
  case True
  with inv charge show ?thesis
    by (simp add: l'_def Ball_change_properties_def Let_def split_beta convert_to_fields
        paddle_convert_to Ball_init_class change_horizontal_velocity_fields)
next
  case False
  with inv charge alloc show ?thesis
    by (simp add: l'_def Ball_change_properties_def Let_def split_beta change_velocity_at_def
        split_into_two_def left_def)
qed


text \<open>An invincible ball lands on a paddle with three charges: on a paddle that is not
  magnetic it stays the ball it was and bounces, on a magnetic paddle it is replaced by
  its magnetic counterpart; in both cases two charges are left.\<close>

theorem invincible_landing_consumes_charge_witness:
  "is_invincible (balls (landing_level False) 0)
   \<and> invincible_balls (paddle (landing_level False)) > 0
   \<and> 0 < next_ball (landing_level False)
   \<and> invincible_balls (paddle (Ball_change_properties 0 (landing_level False))) = 2
   \<and> next_ball (Ball_change_properties 0 (landing_level False)) = 1
   \<and> 0 \<in> set (ball_list (Ball_change_properties 0 (landing_level False)))
   \<and> balls (Ball_change_properties 0 (landing_level False)) 0
        = change_velocity 0 200 (ball_of InvinciBall 40)
   \<and> is_invincible (balls (landing_level True) 0)
   \<and> invincible_balls (paddle (Ball_change_properties 0 (landing_level True))) = 2
   \<and> next_ball (Ball_change_properties 0 (landing_level True)) = 2
   \<and> ball_class (balls (Ball_change_properties 0 (landing_level True)) 1) = MagneticInviciBall
   \<and> magnetic_ball_list (paddle (Ball_change_properties 0 (landing_level True))) = [1]"
  using invincible_landing_consumes_charge [of "landing_level False" 0]
    invincible_landing_consumes_charge [of "landing_level True" 0]
  by (simp add: landing_level_def example_level_def example_paddle_def ball_of_def left_def)

section \<open>The invincible-ball icon\<close>

lemma InvinciBallIcon_loop_unfold:
  "InvinciBallIcon_loop n l =
     (if n < length (magnetic_ball_list (paddle l)) then
        (if \<not> is_invincible (balls l (magnetic_ball_list (paddle l) ! n))
         then InvinciBallIcon_loop (Suc n) (InvinciBallIcon_round n l)
         else InvinciBallIcon_loop (Suc n) l)
      else l)"
  by (subst InvinciBallIcon_loop.simps) (simp add: Let_def InvinciBallIcon_round_def)

lemma InvinciBallIcon_round_count:
  "int (next_ball (InvinciBallIcon_round n l)) + invincible_balls (paddle (InvinciBallIcon_round n l))
     = int (next_ball l) + invincible_balls (paddle l)"
  by (simp add: InvinciBallIcon_round_def Let_def convert_to_fields paddle_convert_to)

lemma InvinciBallIcon_loop_count:
  "int (next_ball (InvinciBallIcon_loop n l)) + invincible_balls (paddle (InvinciBallIcon_loop n l))
     = int (next_ball l) + invincible_balls (paddle l)"
proof (induction n l rule: InvinciBallIcon_loop.induct)
  case (1 n l)
  show ?case
  proof (cases "n < length (magnetic_ball_list (paddle l))")
    case False
    then show ?thesis by (subst (1 2) InvinciBallIcon_loop_unfold) simp
  next
    case True
    show ?thesis
    proof (cases "is_invincible (balls l (magnetic_ball_list (paddle l) ! n))")
      case inv: True
      have "int (next_ball (InvinciBallIcon_loop (Suc n) l)) + invincible_balls (paddle (InvinciBallIcon_loop (Suc n) l))
              = int (next_ball l) + invincible_balls (paddle l)"
        using "1.IH"(2) [OF True refl] inv by simp
      with True inv show ?thesis by (subst (1 2) InvinciBallIcon_loop_unfold) simp
    next
      case False
      have "int (next_ball (InvinciBallIcon_loop (Suc n) (InvinciBallIcon_round n l)))
              + invincible_balls (paddle (InvinciBallIcon_loop (Suc n) (InvinciBallIcon_round n l)))
            = int (next_ball (InvinciBallIcon_round n l)) + invincible_balls (paddle (InvinciBallIcon_round n l))"
        using "1.IH"(1) [OF True refl False refl refl refl refl refl refl]
        by (simp add: InvinciBallIcon_round_def Let_def)
      with True False show ?thesis
        by (subst (1 2) InvinciBallIcon_loop_unfold) (simp add: InvinciBallIcon_round_count)
    qed
  qed
qed

lemma InvinciBallIcon_loop_all_invincible:
  assumes "\<forall>j \<in> set (magnetic_ball_list (paddle l)). is_invincible (balls l j)"
  shows "InvinciBallIcon_loop n l = l"
  using assms
proof (induction n l rule: InvinciBallIcon_loop.induct)
  case (1 n l)
  show ?case
  proof (cases "n < length (magnetic_ball_list (paddle l))")
    case False
    then show ?thesis by (subst InvinciBallIcon_loop_unfold) simp
  next
    case True
    then have inv: "is_invincible (balls l (magnetic_ball_list (paddle l) ! n))"
      using "1.prems" by simp
    have "InvinciBallIcon_loop (Suc n) l = l"
      using "1.IH"(2) [OF True refl _ "1.prems"] inv by simp
    with True inv show ?thesis by (subst InvinciBallIcon_loop_unfold) simp
  qed
qed


lemma InvinciBallIcon_round_fields:
  assumes "n < length (magnetic_ball_list (paddle l))"
  shows "next_ball (InvinciBallIcon_round n l) = Suc (next_ball l)"
    and "balls (InvinciBallIcon_round n l) =
           (balls l)(next_ball l := change_horizontal_velocity (paddle l)
              ((Ball_init MagneticInviciBall l)
                 \<lparr>center_x := center_x (balls l (magnetic_ball_list (paddle l) ! n)),
                  center_y := center_y (balls l (magnetic_ball_list (paddle l) ! n))\<rparr>))"
    and "magnetic_ball_list (paddle (InvinciBallIcon_round n l)) =
           remove1 (magnetic_ball_list (paddle l) ! n) (magnetic_ball_list (paddle l) @ [next_ball l])"
    and "ball_list (InvinciBallIcon_round n l) =
           removeAll (magnetic_ball_list (paddle l) ! n) (ball_list l @ [next_ball l])"
  by (simp_all add: InvinciBallIcon_round_def Let_def convert_to_fields paddle_convert_to)

text \<open>What the loop keeps of a ball that is already there.\<close>

lemma InvinciBallIcon_loop_keeps:
  assumes "j < next_ball l"
  shows "balls (InvinciBallIcon_loop n l) j = balls l j
       \<and> next_ball l \<le> next_ball (InvinciBallIcon_loop n l)
       \<and> (is_invincible (balls l j) \<and> j \<in> set (magnetic_ball_list (paddle l))
            \<longrightarrow> j \<in> set (magnetic_ball_list (paddle (InvinciBallIcon_loop n l))))
       \<and> (is_invincible (balls l j) \<and> j \<in> set (ball_list l)
            \<longrightarrow> j \<in> set (ball_list (InvinciBallIcon_loop n l)))
       \<and> (j \<notin> set (ball_list l) \<longrightarrow> j \<notin> set (ball_list (InvinciBallIcon_loop n l)))"
  using assms
proof (induction n l rule: InvinciBallIcon_loop.induct)
  case (1 n l)
  show ?case
  proof (cases "n < length (magnetic_ball_list (paddle l))")
    case False
    then show ?thesis by (subst (1 2 3 4 5) InvinciBallIcon_loop_unfold) simp
  next
    case True
    let ?ball = "magnetic_ball_list (paddle l) ! n"
    show ?thesis
    proof (cases "is_invincible (balls l ?ball)")
      case inv: True
      have "balls (InvinciBallIcon_loop (Suc n) l) j = balls l j
       \<and> next_ball l \<le> next_ball (InvinciBallIcon_loop (Suc n) l)
       \<and> (is_invincible (balls l j) \<and> j \<in> set (magnetic_ball_list (paddle l))
            \<longrightarrow> j \<in> set (magnetic_ball_list (paddle (InvinciBallIcon_loop (Suc n) l))))
       \<and> (is_invincible (balls l j) \<and> j \<in> set (ball_list l)
            \<longrightarrow> j \<in> set (ball_list (InvinciBallIcon_loop (Suc n) l)))
       \<and> (j \<notin> set (ball_list l) \<longrightarrow> j \<notin> set (ball_list (InvinciBallIcon_loop (Suc n) l)))"
        using "1.IH"(2) [OF True refl _ "1.prems"] inv by simp
      with True inv show ?thesis
        by (subst (1 2 3 4 5) InvinciBallIcon_loop_unfold) simp
    next
      case False
      let ?l1 = "InvinciBallIcon_round n l"
      note f = InvinciBallIcon_round_fields [OF True]
      have j1: "j < next_ball ?l1"
        using "1.prems" by (simp add: f)
      have b1: "balls ?l1 j = balls l j"
        using "1.prems" by (simp add: f)
      have ih: "balls (InvinciBallIcon_loop (Suc n) ?l1) j = balls ?l1 j
       \<and> next_ball ?l1 \<le> next_ball (InvinciBallIcon_loop (Suc n) ?l1)
       \<and> (is_invincible (balls ?l1 j) \<and> j \<in> set (magnetic_ball_list (paddle ?l1))
            \<longrightarrow> j \<in> set (magnetic_ball_list (paddle (InvinciBallIcon_loop (Suc n) ?l1))))
       \<and> (is_invincible (balls ?l1 j) \<and> j \<in> set (ball_list ?l1)
            \<longrightarrow> j \<in> set (ball_list (InvinciBallIcon_loop (Suc n) ?l1)))
       \<and> (j \<notin> set (ball_list ?l1) \<longrightarrow> j \<notin> set (ball_list (InvinciBallIcon_loop (Suc n) ?l1)))"
        using "1.IH"(1) [OF True refl False refl refl refl refl refl refl] j1
        by (simp add: InvinciBallIcon_round_def Let_def)
      have m1: "is_invincible (balls l j) \<and> j \<in> set (magnetic_ball_list (paddle l))
                  \<longrightarrow> j \<in> set (magnetic_ball_list (paddle ?l1))"
      proof
        assume a: "is_invincible (balls l j) \<and> j \<in> set (magnetic_ball_list (paddle l))"
        with False have "j \<noteq> ?ball" by auto
        with a show "j \<in> set (magnetic_ball_list (paddle ?l1))"
          by (simp add: f)
      qed
      have c1: "is_invincible (balls l j) \<and> j \<in> set (ball_list l) \<longrightarrow> j \<in> set (ball_list ?l1)"
      proof
        assume a: "is_invincible (balls l j) \<and> j \<in> set (ball_list l)"
        with False have "j \<noteq> ?ball" by auto
        with a show "j \<in> set (ball_list ?l1)"
          by (simp add: f)
      qed
      have d1: "j \<notin> set (ball_list l) \<longrightarrow> j \<notin> set (ball_list ?l1)"
        using "1.prems" by (simp add: f)
      have n1: "next_ball l \<le> next_ball ?l1"
        by (simp add: f)
      have "InvinciBallIcon_loop n l = InvinciBallIcon_loop (Suc n) ?l1"
        using True False by (subst InvinciBallIcon_loop_unfold) simp
      then show ?thesis
        using ih b1 m1 c1 d1 n1 by auto
    qed
  qed
qed

text \<open>The loop passes over balls that are invincible already.\<close>

lemma InvinciBallIcon_loop_skip:
  assumes "k \<le> length (magnetic_ball_list (paddle l))"
    and "\<forall>m. n \<le> m \<and> m < k \<longrightarrow> is_invincible (balls l (magnetic_ball_list (paddle l) ! m))"
    and "n \<le> k"
  shows "InvinciBallIcon_loop n l = InvinciBallIcon_loop k l"
  using assms(3,2)
proof (induction rule: inc_induct)
  case base
  show ?case by simp
next
  case (step m)
  then have "is_invincible (balls l (magnetic_ball_list (paddle l) ! m))"
    by simp
  moreover have "m < length (magnetic_ball_list (paddle l))"
    using step.hyps assms(1) by simp
  ultimately have "InvinciBallIcon_loop m l = InvinciBallIcon_loop (Suc m) l"
    by (subst InvinciBallIcon_loop_unfold) simp
  also have "\<dots> = InvinciBallIcon_loop k l"
    using step.prems by (intro step.IH) simp
  finally show ?case .
qed



text \<open>
  Claim C5, as the code has it. When the invincible-ball icon reaches the paddle, for
  any number of attached magnetic balls: the charges of the paddle go up by 3 and down
  by 1 for every attached ball that is converted (every conversion makes one ball); an
  attached ball that is invincible already stays attached as it is; when no attached
  ball can be converted (none is attached, or all are invincible) the paddle gains the
  3 charges and nothing else changes; and the first attached ball that is not
  invincible is converted: its invincible magnetic counterpart is made at the same
  place, attached to the paddle and put in the ball list of the level, which the old
  ball leaves. When this ball is the only one attached, the list of the paddle holds
  just the new ball afterwards and 2 charges are gained.
\<close>

theorem InvinciBallIcon_charges_and_conversion:
  fixes l :: level and i j k :: nat
  defines "l' \<equiv> InvinciBallIcon_activate_icon_property l"
  defines "attached \<equiv> magnetic_ball_list (paddle l)"
  shows "invincible_balls (paddle l')
           = invincible_balls (paddle l) + 3 - (int (next_ball l') - int (next_ball l))
       \<and> ((\<forall>j \<in> set attached. is_invincible (balls l j)) \<longrightarrow>
            l' = l\<lparr>paddle := (paddle l)\<lparr>invincible_balls := invincible_balls (paddle l) + 3\<rparr>\<rparr>)
       \<and> (j \<in> set attached \<and> j < next_ball l \<and> is_invincible (balls l j) \<longrightarrow>
            j \<in> set (magnetic_ball_list (paddle l')) \<and> balls l' j = balls l j)
       \<and> (k < length attached \<and> \<not> is_invincible (balls l (attached ! k))
            \<and> (\<forall>m. m < k \<longrightarrow> is_invincible (balls l (attached ! m)))
            \<and> attached ! k < next_ball l \<longrightarrow>
            ball_class (balls l' (next_ball l)) = MagneticInviciBall
          \<and> is_invincible (balls l' (next_ball l))
          \<and> center_x (balls l' (next_ball l)) = center_x (balls l (attached ! k))
          \<and> center_y (balls l' (next_ball l)) = center_y (balls l (attached ! k))
          \<and> next_ball l \<in> set (magnetic_ball_list (paddle l'))
          \<and> next_ball l \<in> set (ball_list l')
          \<and> attached ! k \<notin> set (ball_list l'))
       \<and> (attached = [i] \<and> \<not> is_invincible (balls l i) \<and> i < next_ball l \<longrightarrow>
            magnetic_ball_list (paddle l') = [next_ball l]
          \<and> ball_class (balls l' (next_ball l)) = MagneticInviciBall
          \<and> is_invincible (balls l' (next_ball l))
          \<and> center_x (balls l' (next_ball l)) = center_x (balls l i)
          \<and> center_y (balls l' (next_ball l)) = center_y (balls l i)
          \<and> next_ball l \<in> set (ball_list l')
          \<and> i \<notin> set (ball_list l')
          \<and> invincible_balls (paddle l') = invincible_balls (paddle l) + 2)"
proof -
  let ?l0 = "l\<lparr>paddle := (paddle l)\<lparr>invincible_balls := invincible_balls (paddle l) + 3\<rparr>\<rparr>"
  have l': "l' = InvinciBallIcon_loop 0 ?l0"
    by (simp add: l'_def InvinciBallIcon_activate_icon_property_def)
  have a: "invincible_balls (paddle l')
          = invincible_balls (paddle l) + 3 - (int (next_ball l') - int (next_ball l))"
    using InvinciBallIcon_loop_count [of 0 ?l0] by (simp add: l')
  have b: "l' = ?l0" if "\<forall>j \<in> set attached. is_invincible (balls l j)"
  proof -
    from that have "\<forall>j \<in> set (magnetic_ball_list (paddle ?l0)). is_invincible (balls ?l0 j)"
      by (simp add: attached_def)
    then show ?thesis
      unfolding l' by (rule InvinciBallIcon_loop_all_invincible)
  qed
  have c: "j \<in> set (magnetic_ball_list (paddle l')) \<and> balls l' j = balls l j"
    if "j \<in> set attached \<and> j < next_ball l \<and> is_invincible (balls l j)"
    using that InvinciBallIcon_loop_keeps [of j ?l0 0] by (simp add: l' attached_def)
  have d: "ball_class (balls l' (next_ball l)) = MagneticInviciBall
          \<and> is_invincible (balls l' (next_ball l))
          \<and> center_x (balls l' (next_ball l)) = center_x (balls l (attached ! k))
          \<and> center_y (balls l' (next_ball l)) = center_y (balls l (attached ! k))
          \<and> next_ball l \<in> set (magnetic_ball_list (paddle l'))
          \<and> next_ball l \<in> set (ball_list l')
          \<and> attached ! k \<notin> set (ball_list l')"
    if first: "k < length attached \<and> \<not> is_invincible (balls l (attached ! k))
            \<and> (\<forall>m. m < k \<longrightarrow> is_invincible (balls l (attached ! m)))
            \<and> attached ! k < next_ball l"
  proof -
    let ?s = "InvinciBallIcon_round k ?l0"
    let ?nb = "next_ball l"
    from first have k: "k < length (magnetic_ball_list (paddle ?l0))"
      by (simp add: attached_def)
    note f = InvinciBallIcon_round_fields [OF k]
    have "InvinciBallIcon_loop 0 ?l0 = InvinciBallIcon_loop k ?l0"
      using first by (intro InvinciBallIcon_loop_skip) (simp_all add: attached_def)
    also have "\<dots> = InvinciBallIcon_loop (Suc k) ?s"
      using first by (subst InvinciBallIcon_loop_unfold) (simp add: attached_def)
    finally have eq: "l' = InvinciBallIcon_loop (Suc k) ?s"
      by (simp add: l')
    have nb: "?nb < next_ball ?s"
      by (simp add: f)
    have old: "attached ! k < next_ball ?s"
      using first by (simp add: f)
    have new_ball: "ball_class (balls ?s ?nb) = MagneticInviciBall"
      "is_invincible (balls ?s ?nb)"
      "center_x (balls ?s ?nb) = center_x (balls l (attached ! k))"
      "center_y (balls ?s ?nb) = center_y (balls l (attached ! k))"
      by (simp_all add: f change_horizontal_velocity_fields Ball_init_class Ball_init_invincible
          attached_def)
    have differ: "?nb \<noteq> attached ! k"
      using first by simp
    then have listed: "?nb \<in> set (magnetic_ball_list (paddle ?s))" "?nb \<in> set (ball_list ?s)"
      "attached ! k \<notin> set (ball_list ?s)"
      by (simp_all add: f attached_def)
    from InvinciBallIcon_loop_keeps [OF nb, of "Suc k"] new_ball listed
    have "balls l' ?nb = balls ?s ?nb" "?nb \<in> set (magnetic_ball_list (paddle l'))"
      "?nb \<in> set (ball_list l')"
      by (simp_all add: eq)
    moreover from InvinciBallIcon_loop_keeps [OF old, of "Suc k"] listed
    have "attached ! k \<notin> set (ball_list l')"
      by (simp add: eq)
    ultimately show ?thesis
      using new_ball by simp
  qed
  have e: "magnetic_ball_list (paddle l') = [next_ball l]
          \<and> ball_class (balls l' (next_ball l)) = MagneticInviciBall
          \<and> is_invincible (balls l' (next_ball l))
          \<and> center_x (balls l' (next_ball l)) = center_x (balls l i)
          \<and> center_y (balls l' (next_ball l)) = center_y (balls l i)
          \<and> next_ball l \<in> set (ball_list l')
          \<and> i \<notin> set (ball_list l')
          \<and> invincible_balls (paddle l') = invincible_balls (paddle l) + 2"
    if one: "attached = [i] \<and> \<not> is_invincible (balls l i) \<and> i < next_ball l"
  proof -
    let ?l1 = "InvinciBallIcon_round 0 ?l0"
    from one have k: "0 < length (magnetic_ball_list (paddle ?l0))"
      by (simp add: attached_def)
    note f = InvinciBallIcon_round_fields [OF k]
    have list1: "magnetic_ball_list (paddle ?l1) = [next_ball l]"
      using one by (simp add: f attached_def)
    have "InvinciBallIcon_loop 0 ?l0 = InvinciBallIcon_loop (Suc 0) ?l1"
      using one by (subst InvinciBallIcon_loop_unfold) (simp add: attached_def)
    also have "\<dots> = ?l1"
      using list1 by (subst InvinciBallIcon_loop_unfold) simp
    finally have eq: "l' = ?l1" by (simp add: l')
    have "invincible_balls (paddle ?l1) = invincible_balls (paddle l) + 2"
      by (simp add: InvinciBallIcon_round_def Let_def paddle_convert_to)
    then show ?thesis
      using one
      by (simp add: eq list1 f change_horizontal_velocity_fields Ball_init_class
          Ball_init_invincible attached_def)
  qed
  from a b c d e show ?thesis
    by blast
qed

text \<open>The facts that evaluate the icon on an example level.\<close>

lemmas attached_simps =
  attached_level_def example_level_def example_paddle_def ball_of_def
  InvinciBallIcon_activate_icon_property_def InvinciBallIcon_loop_unfold InvinciBallIcon_round_def
  convert_to_def Let_def remove_ball_from_sprite_lists_def Ball_init_def set_velocity_def
  change_horizontal_velocity_def example_boundary_def example_images_def

text \<open>Claim C5 as stated has the paddle gain 3 charges. With one magnetic ball attached
  that is not invincible, the ball is converted as the claim says, and the conversion
  takes one of the charges: the paddle had none and has 2 afterwards, not 3.\<close>

theorem InvinciBallIcon_conversion_costs_a_charge_counterexample:
  "magnetic_ball_list (paddle (attached_level [ball_of MagneticNormalBall 90])) = [0]
   \<and> \<not> is_invincible (balls (attached_level [ball_of MagneticNormalBall 90]) 0)
   \<and> invincible_balls (paddle (attached_level [ball_of MagneticNormalBall 90])) = 0
   \<and> magnetic_ball_list (paddle (InvinciBallIcon_activate_icon_property
        (attached_level [ball_of MagneticNormalBall 90]))) = [1]
   \<and> ball_class (balls (InvinciBallIcon_activate_icon_property
        (attached_level [ball_of MagneticNormalBall 90])) 1) = MagneticInviciBall
   \<and> invincible_balls (paddle (InvinciBallIcon_activate_icon_property
        (attached_level [ball_of MagneticNormalBall 90]))) = 2
   \<and> (2::int) \<noteq> 0 + 3"
  by (simp add: attached_simps)

text \<open>One attached magnetic ball is converted and two charges are gained. Of an invincible
  and a normal magnetic ball attached, the first is left alone and the second is
  converted: the new ball is at the place of the second, and two charges are gained. One
  attached invincible magnetic ball is left alone and three charges are gained.\<close>

theorem InvinciBallIcon_charges_and_conversion_witness:
  "magnetic_ball_list (paddle (attached_level [ball_of MagneticNormalBall 90])) = [0]
   \<and> \<not> is_invincible (balls (attached_level [ball_of MagneticNormalBall 90]) 0)
   \<and> 0 < next_ball (attached_level [ball_of MagneticNormalBall 90])
   \<and> magnetic_ball_list (paddle (InvinciBallIcon_activate_icon_property (attached_level [ball_of MagneticNormalBall 90]))) = [1]
   \<and> ball_class (balls (InvinciBallIcon_activate_icon_property (attached_level [ball_of MagneticNormalBall 90])) 1) = MagneticInviciBall
   \<and> invincible_balls (paddle (InvinciBallIcon_activate_icon_property (attached_level [ball_of MagneticNormalBall 90]))) = 2
   \<and> ball_list (InvinciBallIcon_activate_icon_property (attached_level [ball_of MagneticNormalBall 90])) = [1]
   \<and> is_invincible (balls (attached_level [ball_of MagneticInviciBall 90, ball_of MagneticNormalBall 110]) 0)
   \<and> \<not> is_invincible (balls (attached_level [ball_of MagneticInviciBall 90, ball_of MagneticNormalBall 110]) 1)
   \<and> magnetic_ball_list (paddle (InvinciBallIcon_activate_icon_property
        (attached_level [ball_of MagneticInviciBall 90, ball_of MagneticNormalBall 110]))) = [0, 2]
   \<and> ball_class (balls (InvinciBallIcon_activate_icon_property
        (attached_level [ball_of MagneticInviciBall 90, ball_of MagneticNormalBall 110])) 2) = MagneticInviciBall
   \<and> center_x (balls (InvinciBallIcon_activate_icon_property
        (attached_level [ball_of MagneticInviciBall 90, ball_of MagneticNormalBall 110])) 2) = 110
   \<and> ball_list (InvinciBallIcon_activate_icon_property
        (attached_level [ball_of MagneticInviciBall 90, ball_of MagneticNormalBall 110])) = [0, 2]
   \<and> invincible_balls (paddle (InvinciBallIcon_activate_icon_property
        (attached_level [ball_of MagneticInviciBall 90, ball_of MagneticNormalBall 110]))) = 2
   \<and> is_invincible (balls (attached_level [ball_of MagneticInviciBall 90]) 0)
   \<and> invincible_balls (paddle (InvinciBallIcon_activate_icon_property (attached_level [ball_of MagneticInviciBall 90]))) = 3
   \<and> magnetic_ball_list (paddle (InvinciBallIcon_activate_icon_property (attached_level [ball_of MagneticInviciBall 90]))) = [0]"
  using InvinciBallIcon_charges_and_conversion
      [where l = "attached_level [ball_of MagneticNormalBall 90]" and i = 0 and j = 0 and k = 0]
    InvinciBallIcon_charges_and_conversion
      [where l = "attached_level [ball_of MagneticInviciBall 90, ball_of MagneticNormalBall 110]"
         and i = 0 and j = 0 and k = 1]
    InvinciBallIcon_charges_and_conversion
      [where l = "attached_level [ball_of MagneticInviciBall 90]" and i = 0 and j = 0 and k = 0]
  by (simp add: attached_simps)

text \<open>With two magnetic balls attached, neither of them invincible, the loop runs over the
  list that it changes: the first round appends the new ball and removes the first, so
  the second ball moves to the position already visited and is never looked at. It
  stays a \<open>MagneticNormalBall\<close> in the list, against the comment of the loop (\<open>change them
  to be invincible\<close>).\<close>

lemma InvinciBallIcon_two_normal_balls_attached:
  "magnetic_ball_list (paddle (attached_level [ball_of MagneticNormalBall 90, ball_of MagneticNormalBall 110])) = [0, 1]
   \<and> \<not> is_invincible (balls (attached_level [ball_of MagneticNormalBall 90, ball_of MagneticNormalBall 110]) 0)
   \<and> \<not> is_invincible (balls (attached_level [ball_of MagneticNormalBall 90, ball_of MagneticNormalBall 110]) 1)
   \<and> magnetic_ball_list (paddle (InvinciBallIcon_activate_icon_property
        (attached_level [ball_of MagneticNormalBall 90, ball_of MagneticNormalBall 110]))) = [1, 2]
   \<and> ball_class (balls (InvinciBallIcon_activate_icon_property
        (attached_level [ball_of MagneticNormalBall 90, ball_of MagneticNormalBall 110])) 1) = MagneticNormalBall
   \<and> \<not> is_invincible (balls (InvinciBallIcon_activate_icon_property
        (attached_level [ball_of MagneticNormalBall 90, ball_of MagneticNormalBall 110])) 1)"
  by (simp add: attached_simps)

section \<open>Bricks: the score is awarded once\<close>

lemma bricks_Brick_change_properties:
  "bricks (Brick_change_properties k l) = (bricks l)(k := hit_brick (bricks l k))"
  by (auto simp: Brick_change_properties_def hit_brick_def Let_def
      remove_brick_from_sprite_lists_def split: option.splits)

lemma score_Brick_change_properties:
  "window_score (level_window (Brick_change_properties k l))
     = window_score (level_window l) + hit_score (bricks l k)"
  by (auto simp: Brick_change_properties_def hit_score_def Let_def
      remove_brick_from_sprite_lists_def split: option.splits)

lemma balls_Brick_change_properties: "balls (Brick_change_properties k l) = balls l"
  by (auto simp: Brick_change_properties_def Let_def
      remove_brick_from_sprite_lists_def split: option.splits)

lemma Brick_change_properties_latched:
  "has_been_hit (bricks l k) \<Longrightarrow> Brick_change_properties k l = l"
  by (simp add: Brick_change_properties_def Let_def)

lemma Brick_update_overlapping:
  "hits_ball \<or> hits_bullet \<Longrightarrow> Brick_update hits_ball hits_bullet k l = l"
  by (auto simp: Brick_update_def)

lemma brick_calls_latched:
  assumes "has_been_hit (bricks l k)" and "\<forall>c \<in> set cs. overlapping c"
  shows "brick_calls k cs l = l"
  using assms
proof (induction cs)
  case Nil
  show ?case by simp
next
  case (Cons c cs)
  show ?case
  proof (cases c)
    case Hit
    with Cons show ?thesis by (simp add: Brick_change_properties_latched)
  next
    case (Update hits_ball hits_bullet)
    with Cons show ?thesis by (simp add: Brick_update_overlapping)
  qed
qed

text \<open>
  Claim C4. For a breakable brick whose latch \<open>has_been_hit\<close> is clear, the first call of
  \<open>change_properties\<close> sets the latch and adds the score of the brick to the score of the
  level; a further call while the latch is set changes nothing, and so does any
  sequence of calls on the brick during which it keeps overlapping a ball or a bullet:
  the score is awarded once. \<open>update\<close> leaves the latch set exactly when the brick still
  overlaps a ball or a bullet. This holds for every number of stages, so for the
  single-stage bricks.
\<close>

theorem brick_score_awarded_once:
  fixes l :: level and k :: nat
  defines "l1 \<equiv> Brick_change_properties k l"
  assumes "is_breakable (bricks l k)" and "\<not> has_been_hit (bricks l k)"
  shows "has_been_hit (bricks l1 k)
       \<and> window_score (level_window l1) = window_score (level_window l) + score (bricks l k)
       \<and> Brick_change_properties k l1 = l1
       \<and> ((\<forall>c \<in> set cs. overlapping c) \<longrightarrow> brick_calls k cs l1 = l1)
       \<and> (has_been_hit (bricks (Brick_update hits_ball hits_bullet k l1) k)
            \<longleftrightarrow> hits_ball \<or> hits_bullet)"
proof -
  have latched: "has_been_hit (bricks l1 k)"
    using assms(2,3) by (simp add: l1_def bricks_Brick_change_properties hit_brick_def)
  have "window_score (level_window l1) = window_score (level_window l) + score (bricks l k)"
    using assms(2,3) by (simp add: l1_def score_Brick_change_properties hit_score_def)
  moreover have "Brick_change_properties k l1 = l1"
    using latched by (rule Brick_change_properties_latched)
  moreover have "(\<forall>c \<in> set cs. overlapping c) \<longrightarrow> brick_calls k cs l1 = l1"
    using latched by (simp add: brick_calls_latched)
  moreover have "has_been_hit (bricks (Brick_update hits_ball hits_bullet k l1) k)
                   \<longleftrightarrow> hits_ball \<or> hits_bullet"
    using latched by (simp add: Brick_update_def)
  ultimately show ?thesis using latched by simp
qed

text \<open>A brick worth 100 is hit, hit again twice and updated while a ball and then a bullet
  are on it: the score stays at 100. An \<open>update\<close> with nothing on the brick clears the
  latch.\<close>

theorem brick_score_awarded_once_witness:
  "is_breakable (bricks (wall_level [example_brick]) 0)
   \<and> \<not> has_been_hit (bricks (wall_level [example_brick]) 0)
   \<and> has_been_hit (bricks (Brick_change_properties 0 (wall_level [example_brick])) 0)
   \<and> window_score (level_window (Brick_change_properties 0 (wall_level [example_brick]))) = 100
   \<and> window_score (level_window (brick_calls 0 [Hit, Update True False, Hit, Update False True, Hit]
        (Brick_change_properties 0 (wall_level [example_brick])))) = 100
   \<and> \<not> has_been_hit (bricks (Brick_update False False 0
        (Brick_change_properties 0 (wall_level [example_brick]))) 0)"
proof -
  let ?l = "wall_level [example_brick]"
  let ?l1 = "Brick_change_properties 0 ?l"
  let ?cs = "[Hit, Update True False, Hit, Update False True, Hit]"
  have pre: "is_breakable (bricks ?l 0)" "\<not> has_been_hit (bricks ?l 0)"
    by (simp_all add: wall_level_def example_level_def example_brick_def)
  have old: "window_score (level_window ?l) + score (bricks ?l 0) = 100"
    by (simp add: wall_level_def example_level_def example_brick_def example_window_def)
  have ov: "\<forall>c \<in> set ?cs. overlapping c"
    by simp
  note t = brick_score_awarded_once [OF pre, of ?cs False False]
  from t have a: "has_been_hit (bricks ?l1 0)"
    by (rule conjunct1)
  from t old have b: "window_score (level_window ?l1) = 100"
    by simp
  from t ov have "brick_calls 0 ?cs ?l1 = ?l1"
    by blast
  with b have c: "window_score (level_window (brick_calls 0 ?cs ?l1)) = 100"
    by (simp only:)
  from t have d: "\<not> has_been_hit (bricks (Brick_update False False 0 ?l1) 0)"
    by blast
  from pre a b c d show ?thesis
    by (intro conjI)
qed



section \<open>Invincible balls and bricks\<close>

lemma hit_brick_idem: "hit_brick (hit_brick br) = hit_brick br"
  by (simp add: hit_brick_def)

lemma hit_score_hit_brick: "hit_score (hit_brick br) = 0"
  by (auto simp: hit_score_def hit_brick_def)

lemma balls_change_properties_of_all: "balls (change_properties_of_all ks l) = balls l"
  by (induction ks arbitrary: l) (simp_all add: balls_Brick_change_properties)

lemma bricks_change_properties_of_all:
  "bricks (change_properties_of_all ks l) j
     = (if j \<in> set ks then hit_brick (bricks l j) else bricks l j)"
proof (induction ks arbitrary: l)
  case Nil
  show ?case by simp
next
  case (Cons k ks)
  show ?case
    by (simp add: Cons.IH bricks_Brick_change_properties hit_brick_idem)
qed

lemma score_change_properties_of_all:
  "window_score (level_window (change_properties_of_all ks l))
     = window_score (level_window l) + (\<Sum>j \<in> set ks. hit_score (bricks l j))"
proof (induction ks arbitrary: l)
  case Nil
  show ?case by simp
next
  case (Cons k ks)
  let ?l1 = "Brick_change_properties k l"
  have "(\<Sum>j \<in> set ks. hit_score (bricks ?l1 j)) = (\<Sum>j \<in> set ks - {k}. hit_score (bricks l j))"
  proof -
    have "(\<Sum>j \<in> set ks. hit_score (bricks ?l1 j))
            = (\<Sum>j \<in> set ks. if j = k then 0 else hit_score (bricks l j))"
      by (rule sum.cong) (simp_all add: bricks_Brick_change_properties hit_score_hit_brick)
    also have "\<dots> = (\<Sum>j \<in> set ks - {k}. hit_score (bricks l j))"
      by (simp add: sum.If_cases Diff_eq Int_commute)
    finally show ?thesis .
  qed
  moreover have "(\<Sum>j \<in> set (k # ks). hit_score (bricks l j))
                   = hit_score (bricks l k) + (\<Sum>j \<in> set ks - {k}. hit_score (bricks l j))"
    by (simp add: sum.insert_remove)
  ultimately show ?case
    by (simp add: Cons.IH score_Brick_change_properties)
qed

lemma find_None_iff_not_ex: "(find P xs = None) = (\<not> (\<exists>x \<in> set xs. P x))"
  by (auto simp: find_None_iff)

text \<open>
  Claim C2, as the code has it. For an invincible ball of a level and the list of the
  bricks it overlaps: in the vertical step \<open>change_y\<close> is negated if and only if some
  brick of the list is unbreakable or a safety barrier; in the horizontal step
  \<open>change_x\<close> is negated if and only if some brick of the list is unbreakable and not a
  safety barrier, so that the safety barrier, which is breakable, never deflects the
  ball sideways. Breakable bricks that are no barrier deflect on neither axis. On both
  axes every brick of the list gets the call of \<open>change_properties\<close>: each is as
  \<open>hit_brick\<close> leaves it, and the score of the level grows by what each awards.
\<close>

theorem InvinciBall_brick_deflection:
  fixes l :: level and i :: nat and hit_list :: "nat list"
  defines "h \<equiv> InvinciBall_collides_with_brick_moving_horizontally hit_list i l"
  defines "v \<equiv> InvinciBall_collides_with_brick_moving_vertically hit_list i l"
  assumes lev: "has_level (balls l i)"
  shows "change_x (balls h i)
           = (if \<exists>k \<in> set hit_list. \<not> is_breakable (bricks l k) \<and> \<not> is_safety_barrier (bricks l k)
              then - change_x (balls l i) else change_x (balls l i))
       \<and> change_y (balls v i)
           = (if \<exists>k \<in> set hit_list. \<not> is_breakable (bricks l k) \<or> is_safety_barrier (bricks l k)
              then - change_y (balls l i) else change_y (balls l i))
       \<and> (\<forall>k \<in> set hit_list. bricks h k = hit_brick (bricks l k) \<and> bricks v k = hit_brick (bricks l k))
       \<and> window_score (level_window h)
           = window_score (level_window l) + (\<Sum>k \<in> set hit_list. hit_score (bricks l k))
       \<and> window_score (level_window v)
           = window_score (level_window l) + (\<Sum>k \<in> set hit_list. hit_score (bricks l k))"
proof -
  let ?Ph = "\<lambda>k. \<not> is_breakable (bricks l k) \<and> \<not> is_safety_barrier (bricks l k)"
  let ?Pv = "\<lambda>k. \<not> is_breakable (bricks l k) \<or> is_safety_barrier (bricks l k)"
  define bh where "bh = (case find ?Ph hit_list of
       Some k \<Rightarrow> (let self = (if change_x (balls l i) > 0 then set_right (left (bricks l k)) (balls l i)
                               else set_left (right (bricks l k)) (balls l i))
                  in self\<lparr>change_x := change_x self * (- 1)\<rparr>)
     | None \<Rightarrow> balls l i)"
  define bv where "bv = (case find ?Pv hit_list of
       Some k \<Rightarrow> (let self = (if change_y (balls l i) > 0 then set_top (bottom (bricks l k)) (balls l i)
                               else set_bottom (top' (bricks l k)) (balls l i))
                  in self\<lparr>change_y := change_y self * (- 1)\<rparr>)
     | None \<Rightarrow> balls l i)"
  have lev_h: "has_level bh"
    using lev by (simp add: bh_def Let_def set_left_def set_right_def split: option.splits)
  have lev_v: "has_level bv"
    using lev by (simp add: bv_def Let_def set_top_def set_bottom_def split: option.splits)
  have h: "h = change_properties_of_all hit_list (l\<lparr>balls := (balls l)(i := bh)\<rparr>)"
    using lev_h unfolding h_def InvinciBall_collides_with_brick_moving_horizontally_def bh_def
    by (simp add: Let_def)
  have v: "v = change_properties_of_all hit_list (l\<lparr>balls := (balls l)(i := bv)\<rparr>)"
    using lev_v unfolding v_def InvinciBall_collides_with_brick_moving_vertically_def bv_def
    by (simp add: Let_def)
  have cx: "change_x bh = (if \<exists>k \<in> set hit_list. ?Ph k then - change_x (balls l i) else change_x (balls l i))"
  proof (cases "find ?Ph hit_list")
    case None
    then have "\<not> (\<exists>k \<in> set hit_list. ?Ph k)" by (simp add: find_None_iff_not_ex)
    with None show ?thesis by (auto simp: bh_def)
  next
    case (Some k)
    then have "\<exists>k \<in> set hit_list. ?Ph k"
      using find_None_iff_not_ex [of ?Ph hit_list] by simp
    with Some show ?thesis by (auto simp: bh_def Let_def set_left_def set_right_def)
  qed
  have cy: "change_y bv = (if \<exists>k \<in> set hit_list. ?Pv k then - change_y (balls l i) else change_y (balls l i))"
  proof (cases "find ?Pv hit_list")
    case None
    then have "\<not> (\<exists>k \<in> set hit_list. ?Pv k)" by (simp add: find_None_iff_not_ex)
    with None show ?thesis by (auto simp: bv_def)
  next
    case (Some k)
    then have "\<exists>k \<in> set hit_list. ?Pv k"
      using find_None_iff_not_ex [of ?Pv hit_list] by simp
    with Some show ?thesis by (auto simp: bv_def Let_def set_top_def set_bottom_def)
  qed
  have "change_x (balls h i) = change_x bh"
    by (simp add: h balls_change_properties_of_all)
  moreover have "change_y (balls v i) = change_y bv"
    by (simp add: v balls_change_properties_of_all)
  moreover have "\<forall>k \<in> set hit_list. bricks h k = hit_brick (bricks l k) \<and> bricks v k = hit_brick (bricks l k)"
    by (simp add: h v bricks_change_properties_of_all)
  moreover have "window_score (level_window h)
           = window_score (level_window l) + (\<Sum>k \<in> set hit_list. hit_score (bricks l k))"
    by (simp add: h score_change_properties_of_all)
  moreover have "window_score (level_window v)
           = window_score (level_window l) + (\<Sum>k \<in> set hit_list. hit_score (bricks l k))"
    by (simp add: v score_change_properties_of_all)
  ultimately show ?thesis
    using cx cy by simp
qed


text \<open>The facts that unfold the example levels.\<close>

lemmas wall_simps =
  wall_level_def example_level_def example_paddle_def example_brick_def example_window_def
  unbreakable_brick_def safety_barrier_def ball_of_def

text \<open>A breakable and an unbreakable brick together deflect on both axes, and the breakable
  one is hit and scores 100; a breakable brick alone does not deflect and scores 100;
  the safety barrier deflects the falling ball.\<close>

theorem InvinciBall_brick_deflection_witness:
  "has_level (balls (wall_level [example_brick, unbreakable_brick]) 0)
   \<and> change_x (balls (InvinciBall_collides_with_brick_moving_horizontally [0, 1] 0
        (wall_level [example_brick, unbreakable_brick])) 0) = - 300
   \<and> change_y (balls (InvinciBall_collides_with_brick_moving_vertically [0, 1] 0
        (wall_level [example_brick, unbreakable_brick])) 0) = 400
   \<and> has_been_hit (bricks (InvinciBall_collides_with_brick_moving_horizontally [0, 1] 0
        (wall_level [example_brick, unbreakable_brick])) 0)
   \<and> window_score (level_window (InvinciBall_collides_with_brick_moving_horizontally [0, 1] 0
        (wall_level [example_brick, unbreakable_brick]))) = 100
   \<and> change_x (balls (InvinciBall_collides_with_brick_moving_horizontally [0] 0
        (wall_level [example_brick])) 0) = 300
   \<and> has_been_hit (bricks (InvinciBall_collides_with_brick_moving_horizontally [0] 0
        (wall_level [example_brick])) 0)
   \<and> window_score (level_window (InvinciBall_collides_with_brick_moving_horizontally [0] 0
        (wall_level [example_brick]))) = 100
   \<and> change_y (balls (InvinciBall_collides_with_brick_moving_vertically [0] 0
        (wall_level [safety_barrier])) 0) = 400"
  using InvinciBall_brick_deflection [of "wall_level [example_brick, unbreakable_brick]" 0 "[0, 1]"]
    InvinciBall_brick_deflection [of "wall_level [example_brick]" 0 "[0]"]
    InvinciBall_brick_deflection [of "wall_level [safety_barrier]" 0 "[0]"]
  by (simp add: wall_simps hit_brick_def hit_score_def)

text \<open>Claim C2 as stated has the component negated whenever the first qualifying brick is
  a safety barrier. In the horizontal step an invincible ball moving right at 300 that
  overlaps the safety barrier alone keeps \<open>change_x = 300\<close>.\<close>

theorem safety_barrier_sideways_counterexample:
  "is_safety_barrier (bricks (wall_level [safety_barrier]) 0)
   \<and> is_invincible (balls (wall_level [safety_barrier]) 0)
   \<and> change_x (balls (wall_level [safety_barrier]) 0) = 300
   \<and> change_x (balls (InvinciBall_collides_with_brick_moving_horizontally [0] 0
        (wall_level [safety_barrier])) 0) = 300"
  by (simp add: wall_simps InvinciBall_collides_with_brick_moving_horizontally_def Let_def
      balls_Brick_change_properties)

section \<open>The bonus of a completed level\<close>

lemma bonus_score_level_is_complete:
  "bonus_score (level_is_complete l) =
     (if length (bonus_collection_order l) = 5
      then (if bonus_collection_order l = ''BONUS'' then 5000 else 2000)
      else bonus_score l) + lives (level_window l) * 100"
  by (simp add: level_is_complete_def Let_def)

text \<open>On a level whose \<open>bonus_score\<close> is still the 0 of \<open>__init__\<close>, a call of
  \<open>level_is_complete\<close> gives the three values of the specification.\<close>

lemma level_is_complete_bonus_first_call:
  assumes "bonus_score l = 0"
  shows "(bonus_collection_order l = ''BONUS'' \<longrightarrow>
            bonus_score (level_is_complete l) = 5000 + 100 * lives (level_window l))
       \<and> (length (bonus_collection_order l) = 5 \<and> bonus_collection_order l \<noteq> ''BONUS'' \<longrightarrow>
            bonus_score (level_is_complete l) = 2000 + 100 * lives (level_window l))
       \<and> (length (bonus_collection_order l) < 5 \<longrightarrow>
            bonus_score (level_is_complete l) = 0 + 100 * lives (level_window l))"
  using assms by (auto simp: bonus_score_level_is_complete)


section \<open>Completion comes before the loss of a life\<close>

lemma lives_lose_a_life: "lives (level_window (lose_a_life l)) = lives (level_window l) - 1"
  by (simp add: lose_a_life_def Let_def)

lemma level_is_complete_keeps:
  "lives (level_window (level_is_complete l)) = lives (level_window l)"
  "lost_a_life (level_is_complete l) = lost_a_life l"
  "game_over (level_is_complete l) = game_over l"
  "level_complete (level_is_complete l)"
  by (simp_all add: level_is_complete_def Let_def)

text \<open>
  Claim C10. In a frame of an active game at whose end the list of the breakable bricks
  is empty, \<open>Level.on_update\<close> calls \<open>level_is_complete\<close> and not \<open>lose_a_life\<close>, whether
  or not the list of the balls is empty as well: the result is the completed level,
  which is not what \<open>lose_a_life\<close> would give, the lives are those left by the updates of
  the sprites, and neither \<open>lost_a_life\<close> nor \<open>game_over\<close> is touched.
\<close>

theorem completion_before_life_loss:
  fixes update_sprites :: "level \<Rightarrow> level" and delta_time :: real and l :: level
  defines "s \<equiv> update_sprites (start_of_update delta_time l)"
  assumes active: "game_is_active l" and empty: "breakable_brick_list s = []"
  shows "Level_on_update update_sprites HIGH_SCORES delta_time l = Inr (level_is_complete s)
       \<and> level_is_complete s \<noteq> lose_a_life s
       \<and> lives (level_window (level_is_complete s)) = lives (level_window s)
       \<and> lost_a_life (level_is_complete s) = lost_a_life s
       \<and> game_over (level_is_complete s) = game_over s
       \<and> level_complete (level_is_complete s)"
proof -
  have "game_is_active (start_of_update delta_time l)"
    using active by (simp add: start_of_update_def Let_def show_view_def)
  then have "Level_on_update update_sprites HIGH_SCORES delta_time l = Inr (level_is_complete s)"
    using empty by (simp add: Level_on_update_def Let_def s_def)
  moreover have "level_is_complete s \<noteq> lose_a_life s"
  proof
    assume "level_is_complete s = lose_a_life s"
    then have "lives (level_window (level_is_complete s)) = lives (level_window (lose_a_life s))"
      by simp
    then show False
      by (simp add: level_is_complete_keeps lives_lose_a_life)
  qed
  ultimately show ?thesis
    by (simp add: level_is_complete_keeps)
qed

text \<open>The last brick and the last ball go in the same frame: the level is complete and the
  three lives are kept.\<close>

theorem completion_before_life_loss_witness:
  "game_is_active last_brick_level
   \<and> breakable_brick_list (lose_everything (start_of_update (1 / 60) last_brick_level)) = []
   \<and> ball_list (lose_everything (start_of_update (1 / 60) last_brick_level)) = []
   \<and> Level_on_update lose_everything [] (1 / 60) last_brick_level
        = Inr (level_is_complete (lose_everything (start_of_update (1 / 60) last_brick_level)))
   \<and> lives (level_window (level_is_complete (lose_everything (start_of_update (1 / 60) last_brick_level)))) = 3"
  using completion_before_life_loss [of last_brick_level lose_everything "1 / 60" "[]"]
  by (simp add: last_brick_level_def lose_everything_def example_level_def example_window_def
      start_of_update_def Let_def)

section \<open>The high scores\<close>

lemma split_comma_field:
  "CHR '','' \<notin> set f \<Longrightarrow> split_comma (f @ CHR '','' # s) = f # split_comma s"
  by (induction f) auto

lemma read_entry_fields:
  assumes "CHR '','' \<notin> set n" and "CHR '','' \<notin> set lv" and "CHR '','' \<notin> set sc"
    and "py_int sc = Inr v"
  shows "read_entry (n @ CHR '','' # lv @ CHR '','' # sc @ CHR '','' # rest)
           = Inr \<lparr>entry_name = n, entry_level = lv, entry_score = v\<rparr>"
  using assms by (simp add: read_entry_def split_comma_field Let_def)

lemma rev_upt_11: "rev [1..<11] = [10, 9, 8, 7, 6, 5, 4, 3, 2, 1::nat]"
  by code_simp

text \<open>The facts that evaluate \<open>int\<close> on a string.\<close>

lemmas py_int_simps =
  py_int_def strip_def is_space_def digits_def is_digit_def digit_value_def Let_def

lemma seed_numbers:
  "\<forall>i \<in> set [10, 9, 8, 7, 6, 5, 4, 3, 2, 1::nat].
      CHR '','' \<notin> set (str_nat (i div 2)) \<and> CHR '','' \<notin> set (str_nat ((i + 1) div 2))
    \<and> CHR '','' \<notin> set (str_nat (i * 5000)) \<and> py_int (str_nat (i * 5000)) = Inr (int (i * 5000))"
  by (simp add: str_nat.simps digit_char_def py_int_simps)

lemma read_entry_seed_row:
  assumes "i \<in> set [10, 9, 8, 7, 6, 5, 4, 3, 2, 1::nat]"
  shows "read_entry (seed_row asctime i) = Inr (seed_entry i)"
proof -
  from assms seed_numbers have n:
    "CHR '','' \<notin> set (str_nat (i div 2))" "CHR '','' \<notin> set (str_nat ((i + 1) div 2))"
    "CHR '','' \<notin> set (str_nat (i * 5000))" "py_int (str_nat (i * 5000)) = Inr (int (i * 5000))"
    by blast+
  show ?thesis
  proof (cases "i mod 2 = 0")
    case True
    then have row: "seed_row asctime i
        = ''Freddy'' @ CHR '','' # str_nat (i div 2) @ CHR '','' # str_nat (i * 5000) @ CHR '','' # (asctime i @ [CHR 0x0A])"
      by (simp add: seed_row_def)
    have "CHR '','' \<notin> set ''Freddy''" by simp
    then have "read_entry (seed_row asctime i)
        = Inr \<lparr>entry_name = ''Freddy'', entry_level = str_nat (i div 2), entry_score = int (i * 5000)\<rparr>"
      unfolding row using n(1,3,4) by (rule read_entry_fields)
    with True show ?thesis by (simp add: seed_entry_def)
  next
    case False
    then have row: "seed_row asctime i
        = ''BBB'' @ CHR '','' # str_nat ((i + 1) div 2) @ CHR '','' # str_nat (i * 5000) @ CHR '','' # (asctime i @ [CHR 0x0A])"
      by (simp add: seed_row_def)
    have "CHR '','' \<notin> set ''BBB''" by simp
    then have "read_entry (seed_row asctime i)
        = Inr \<lparr>entry_name = ''BBB'', entry_level = str_nat ((i + 1) div 2), entry_score = int (i * 5000)\<rparr>"
      unfolding row using n(2,3,4) by (rule read_entry_fields)
    with False show ?thesis by (simp add: seed_entry_def)
  qed
qed

lemma read_entries_map:
  "(\<And>x. x \<in> set xs \<Longrightarrow> read_entry (f x) = Inr (g x)) \<Longrightarrow> read_entries (map f xs) = Inr (map g xs)"
  by (induction xs) simp_all

lemma read_entries_seeds:
  "read_entries (map (seed_row asctime) (rev [1..<11])) = Inr (map seed_entry (rev [1..<11]))"
  unfolding rev_upt_11 by (rule read_entries_map) (rule read_entry_seed_row)

lemma ten_best_seeds:
  "ten_best (map seed_entry (rev [1..<11])) =
     [\<lparr>entry_name = ''Freddy'', entry_level = ''5'', entry_score = 50000\<rparr>,
      \<lparr>entry_name = ''BBB'', entry_level = ''5'', entry_score = 45000\<rparr>,
      \<lparr>entry_name = ''Freddy'', entry_level = ''4'', entry_score = 40000\<rparr>,
      \<lparr>entry_name = ''BBB'', entry_level = ''4'', entry_score = 35000\<rparr>,
      \<lparr>entry_name = ''Freddy'', entry_level = ''3'', entry_score = 30000\<rparr>,
      \<lparr>entry_name = ''BBB'', entry_level = ''3'', entry_score = 25000\<rparr>,
      \<lparr>entry_name = ''Freddy'', entry_level = ''2'', entry_score = 20000\<rparr>,
      \<lparr>entry_name = ''BBB'', entry_level = ''2'', entry_score = 15000\<rparr>,
      \<lparr>entry_name = ''Freddy'', entry_level = ''1'', entry_score = 10000\<rparr>,
      \<lparr>entry_name = ''BBB'', entry_level = ''1'', entry_score = 5000\<rparr>]"
  unfolding rev_upt_11 by (simp add: ten_best_def seed_entry_def str_nat.simps digit_char_def)

lemma read_entries_list_all2:
  "read_entries ls = Inr es \<Longrightarrow> list_all2 (\<lambda>line e. read_entry line = Inr e) ls es"
  by (induction ls arbitrary: es) (auto split: sum.splits)

lemma read_entries_total:
  "list_all (\<lambda>line. \<exists>e. read_entry line = Inr e) ls \<Longrightarrow> \<exists>es. read_entries ls = Inr es"
  by (induction ls) auto

lemma ten_best_length: "length (ten_best es) = min 10 (length es)"
  by (simp add: ten_best_def)

lemma ten_best_sorted: "sorted_wrt (\<lambda>a b. entry_score b \<le> entry_score a) (ten_best es)"
proof -
  have "sorted (map (\<lambda>e. - entry_score e) (sort_key (\<lambda>e. - entry_score e) es))"
    by (rule sorted_sort_key)
  then have "sorted_wrt (\<lambda>a b. entry_score b \<le> entry_score a) (sort_key (\<lambda>e. - entry_score e) es)"
    by (simp add: sorted_map)
  then show ?thesis
    unfolding ten_best_def by (rule sorted_wrt_take)
qed

lemma ten_best_rest:
  "\<exists>others. mset (ten_best es @ others) = mset es
     \<and> (\<forall>x \<in> set (ten_best es). \<forall>y \<in> set others. entry_score y \<le> entry_score x)"
proof -
  let ?s = "sort_key (\<lambda>e. - entry_score e) es"
  have "sorted_wrt (\<lambda>a b. entry_score b \<le> entry_score a) (take 10 ?s @ drop 10 ?s)"
    using sorted_sort_key [of "\<lambda>e. - entry_score e" es] by (simp add: sorted_map)
  then have "\<forall>x \<in> set (take 10 ?s). \<forall>y \<in> set (drop 10 ?s). entry_score y \<le> entry_score x"
    by (simp only: sorted_wrt_append) blast
  moreover have "mset (take 10 ?s @ drop 10 ?s) = mset es"
    by simp
  ultimately show ?thesis
    unfolding ten_best_def by blast
qed


text \<open>
  Claim C8. When \<open>get_high_scores\<close> returns a list, the list has at most 10 entries and is
  sorted by score in descending order; its entries are read from the rows of the file
  after the heading, one entry for each row, and they are the best of them: the list
  and the entries left out make up all the entries read, and no entry left out has a
  higher score than one in the list. When the file does not exist, it is first created
  with the heading and 10 rows, and the list returned holds the 10 entries of these
  rows, whatever \<open>time.asctime()\<close> gives. A file that exists is left as it is, and
  when every row after the heading can be read the call returns a list.
\<close>

theorem get_high_scores_ten_best:
  fixes asctime :: "nat \<Rightarrow> string" and high_scores_file :: text_file
  defines "res \<equiv> get_high_scores asctime high_scores_file"
  shows "(\<forall>r. snd res = Inr r \<longrightarrow>
            length r \<le> 10
          \<and> sorted_wrt (\<lambda>a b. entry_score b \<le> entry_score a) r
          \<and> (\<exists>heading rest es others.
                fst res = Some (heading # rest)
              \<and> list_all2 (\<lambda>line e. read_entry line = Inr e) rest es
              \<and> length r = min 10 (length es)
              \<and> mset (r @ others) = mset es
              \<and> (\<forall>x \<in> set r. \<forall>y \<in> set others. entry_score y \<le> entry_score x)))
       \<and> (high_scores_file = None \<longrightarrow>
            fst res = Some (create_high_scores asctime)
          \<and> length (create_high_scores asctime) = 11
          \<and> hd (create_high_scores asctime) = ''name,level,score,datetime'' @ [CHR 0x0A]
          \<and> snd res =
              Inr [\<lparr>entry_name = ''Freddy'', entry_level = ''5'', entry_score = 50000\<rparr>,
                   \<lparr>entry_name = ''BBB'', entry_level = ''5'', entry_score = 45000\<rparr>,
                   \<lparr>entry_name = ''Freddy'', entry_level = ''4'', entry_score = 40000\<rparr>,
                   \<lparr>entry_name = ''BBB'', entry_level = ''4'', entry_score = 35000\<rparr>,
                   \<lparr>entry_name = ''Freddy'', entry_level = ''3'', entry_score = 30000\<rparr>,
                   \<lparr>entry_name = ''BBB'', entry_level = ''3'', entry_score = 25000\<rparr>,
                   \<lparr>entry_name = ''Freddy'', entry_level = ''2'', entry_score = 20000\<rparr>,
                   \<lparr>entry_name = ''BBB'', entry_level = ''2'', entry_score = 15000\<rparr>,
                   \<lparr>entry_name = ''Freddy'', entry_level = ''1'', entry_score = 10000\<rparr>,
                   \<lparr>entry_name = ''BBB'', entry_level = ''1'', entry_score = 5000\<rparr>])
       \<and> (\<forall>ls. high_scores_file = Some ls \<longrightarrow> fst res = Some ls)
       \<and> (\<forall>heading rest. high_scores_file = Some (heading # rest)
              \<and> list_all (\<lambda>line. \<exists>e. read_entry line = Inr e) rest \<longrightarrow>
            (\<exists>r. snd res = Inr r))"
proof (intro conjI allI impI)
  fix r
  assume r: "snd res = Inr r"
  define ls where "ls = (case high_scores_file of None \<Rightarrow> create_high_scores asctime | Some ls \<Rightarrow> ls)"
  have res: "res = (Some ls,
      case ls of [] \<Rightarrow> Inl StopIteration
      | heading # rest \<Rightarrow> (case read_entries rest of Inl e \<Rightarrow> Inl e
                           | Inr es \<Rightarrow> Inr (ten_best es)))"
    by (simp add: res_def get_high_scores_def ls_def Let_def)
  from r obtain heading rest es where ls: "ls = heading # rest"
    and es: "read_entries rest = Inr es" and r_eq: "r = ten_best es"
    by (auto simp: res split: list.splits sum.splits)
  show "length r \<le> 10"
    by (simp add: r_eq ten_best_length)
  show "sorted_wrt (\<lambda>a b. entry_score b \<le> entry_score a) r"
    by (simp add: r_eq ten_best_sorted)
  from ten_best_rest [of es] obtain others where
    "mset (r @ others) = mset es"
    "\<forall>x \<in> set r. \<forall>y \<in> set others. entry_score y \<le> entry_score x"
    unfolding r_eq by blast
  moreover have "fst res = Some (heading # rest)"
    by (simp add: res ls)
  moreover have "list_all2 (\<lambda>line e. read_entry line = Inr e) rest es"
    using es by (rule read_entries_list_all2)
  moreover have "length r = min 10 (length es)"
    by (simp add: r_eq ten_best_length)
  ultimately show "\<exists>heading rest es others.
                fst res = Some (heading # rest)
              \<and> list_all2 (\<lambda>line e. read_entry line = Inr e) rest es
              \<and> length r = min 10 (length es)
              \<and> mset (r @ others) = mset es
              \<and> (\<forall>x \<in> set r. \<forall>y \<in> set others. entry_score y \<le> entry_score x)"
    by blast
next
  assume "high_scores_file = None"
  then have res: "res = (Some (create_high_scores asctime),
      case read_entries (map (seed_row asctime) (rev [1..<11])) of Inl e \<Rightarrow> Inl e
      | Inr es \<Rightarrow> Inr (ten_best es))"
    by (simp add: res_def get_high_scores_def create_high_scores_def Let_def)
  show "fst res = Some (create_high_scores asctime)"
    by (simp add: res)
  show "length (create_high_scores asctime) = 11"
    by (simp add: create_high_scores_def)
  show "hd (create_high_scores asctime) = ''name,level,score,datetime'' @ [CHR 0x0A]"
    by (simp add: create_high_scores_def)
  show "snd res =
              Inr [\<lparr>entry_name = ''Freddy'', entry_level = ''5'', entry_score = 50000\<rparr>,
                   \<lparr>entry_name = ''BBB'', entry_level = ''5'', entry_score = 45000\<rparr>,
                   \<lparr>entry_name = ''Freddy'', entry_level = ''4'', entry_score = 40000\<rparr>,
                   \<lparr>entry_name = ''BBB'', entry_level = ''4'', entry_score = 35000\<rparr>,
                   \<lparr>entry_name = ''Freddy'', entry_level = ''3'', entry_score = 30000\<rparr>,
                   \<lparr>entry_name = ''BBB'', entry_level = ''3'', entry_score = 25000\<rparr>,
                   \<lparr>entry_name = ''Freddy'', entry_level = ''2'', entry_score = 20000\<rparr>,
                   \<lparr>entry_name = ''BBB'', entry_level = ''2'', entry_score = 15000\<rparr>,
                   \<lparr>entry_name = ''Freddy'', entry_level = ''1'', entry_score = 10000\<rparr>,
                   \<lparr>entry_name = ''BBB'', entry_level = ''1'', entry_score = 5000\<rparr>]"
    by (simp only: res snd_conv read_entries_seeds sum.case ten_best_seeds)
next
  fix ls
  assume "high_scores_file = Some ls"
  then show "fst res = Some ls"
    by (simp add: res_def get_high_scores_def Let_def)
next
  fix heading rest
  assume "high_scores_file = Some (heading # rest) \<and> list_all (\<lambda>line. \<exists>e. read_entry line = Inr e) rest"
  then obtain es where "high_scores_file = Some (heading # rest)" and "read_entries rest = Inr es"
    using read_entries_total by blast
  then show "\<exists>r. snd res = Inr r"
    by (simp add: res_def get_high_scores_def Let_def)
qed

lemma read_example_file:
  "read_entries (tl example_file) =
     Inr [\<lparr>entry_name = ''Ann'', entry_level = ''2'', entry_score = 700\<rparr>,
          \<lparr>entry_name = ''Bob'', entry_level = ''9'', entry_score = 90000\<rparr>,
          \<lparr>entry_name = ''Cy'', entry_level = ''1'', entry_score = 100\<rparr>,
          \<lparr>entry_name = ''Dee'', entry_level = ''3'', entry_score = 700\<rparr>,
          \<lparr>entry_name = ''Eli'', entry_level = ''4'', entry_score = 5000\<rparr>,
          \<lparr>entry_name = ''Fay'', entry_level = ''1'', entry_score = 50\<rparr>,
          \<lparr>entry_name = ''Gus'', entry_level = ''5'', entry_score = 6000\<rparr>,
          \<lparr>entry_name = ''Hal'', entry_level = ''6'', entry_score = 8000\<rparr>,
          \<lparr>entry_name = ''Ida'', entry_level = ''7'', entry_score = 9000\<rparr>,
          \<lparr>entry_name = ''Jo'', entry_level = ''8'', entry_score = 12000\<rparr>,
          \<lparr>entry_name = ''Kim'', entry_level = ''2'', entry_score = 300\<rparr>,
          \<lparr>entry_name = ''Lu'', entry_level = ''1'', entry_score = 20\<rparr>]"
  by (simp add: example_file_def read_entry_def py_int_simps)


lemma get_high_scores_example_file:
  "snd (get_high_scores asctime (Some example_file)) =
     Inr [\<lparr>entry_name = ''Bob'', entry_level = ''9'', entry_score = 90000\<rparr>,
          \<lparr>entry_name = ''Jo'', entry_level = ''8'', entry_score = 12000\<rparr>,
          \<lparr>entry_name = ''Ida'', entry_level = ''7'', entry_score = 9000\<rparr>,
          \<lparr>entry_name = ''Hal'', entry_level = ''6'', entry_score = 8000\<rparr>,
          \<lparr>entry_name = ''Gus'', entry_level = ''5'', entry_score = 6000\<rparr>,
          \<lparr>entry_name = ''Eli'', entry_level = ''4'', entry_score = 5000\<rparr>,
          \<lparr>entry_name = ''Ann'', entry_level = ''2'', entry_score = 700\<rparr>,
          \<lparr>entry_name = ''Dee'', entry_level = ''3'', entry_score = 700\<rparr>,
          \<lparr>entry_name = ''Kim'', entry_level = ''2'', entry_score = 300\<rparr>,
          \<lparr>entry_name = ''Cy'', entry_level = ''1'', entry_score = 100\<rparr>]"
proof -
  have "snd (get_high_scores asctime (Some example_file))
          = (case read_entries (tl example_file) of Inl e \<Rightarrow> Inl e | Inr es \<Rightarrow> Inr (ten_best es))"
    by (simp add: get_high_scores_def Let_def example_file_def)
  then show ?thesis
    by (simp add: read_example_file ten_best_def)
qed

text \<open>With no file the ten seed entries come back; from the file of twelve rows the ten
  best come back, the two entries with the score 700 in the order of the file.\<close>

theorem get_high_scores_ten_best_witness:
  "fst (get_high_scores (\<lambda>i. ''Wed Nov  4 17:01:00 2026'') None)
     = Some (create_high_scores (\<lambda>i. ''Wed Nov  4 17:01:00 2026''))
   \<and> snd (get_high_scores (\<lambda>i. ''Wed Nov  4 17:01:00 2026'') None) =
       Inr [\<lparr>entry_name = ''Freddy'', entry_level = ''5'', entry_score = 50000\<rparr>,
            \<lparr>entry_name = ''BBB'', entry_level = ''5'', entry_score = 45000\<rparr>,
            \<lparr>entry_name = ''Freddy'', entry_level = ''4'', entry_score = 40000\<rparr>,
            \<lparr>entry_name = ''BBB'', entry_level = ''4'', entry_score = 35000\<rparr>,
            \<lparr>entry_name = ''Freddy'', entry_level = ''3'', entry_score = 30000\<rparr>,
            \<lparr>entry_name = ''BBB'', entry_level = ''3'', entry_score = 25000\<rparr>,
            \<lparr>entry_name = ''Freddy'', entry_level = ''2'', entry_score = 20000\<rparr>,
            \<lparr>entry_name = ''BBB'', entry_level = ''2'', entry_score = 15000\<rparr>,
            \<lparr>entry_name = ''Freddy'', entry_level = ''1'', entry_score = 10000\<rparr>,
            \<lparr>entry_name = ''BBB'', entry_level = ''1'', entry_score = 5000\<rparr>]
   \<and> fst (get_high_scores (\<lambda>i. ''Wed Nov  4 17:01:00 2026'') (Some example_file)) = Some example_file
   \<and> snd (get_high_scores (\<lambda>i. ''Wed Nov  4 17:01:00 2026'') (Some example_file)) =
       Inr [\<lparr>entry_name = ''Bob'', entry_level = ''9'', entry_score = 90000\<rparr>,
            \<lparr>entry_name = ''Jo'', entry_level = ''8'', entry_score = 12000\<rparr>,
            \<lparr>entry_name = ''Ida'', entry_level = ''7'', entry_score = 9000\<rparr>,
            \<lparr>entry_name = ''Hal'', entry_level = ''6'', entry_score = 8000\<rparr>,
            \<lparr>entry_name = ''Gus'', entry_level = ''5'', entry_score = 6000\<rparr>,
            \<lparr>entry_name = ''Eli'', entry_level = ''4'', entry_score = 5000\<rparr>,
            \<lparr>entry_name = ''Ann'', entry_level = ''2'', entry_score = 700\<rparr>,
            \<lparr>entry_name = ''Dee'', entry_level = ''3'', entry_score = 700\<rparr>,
            \<lparr>entry_name = ''Kim'', entry_level = ''2'', entry_score = 300\<rparr>,
            \<lparr>entry_name = ''Cy'', entry_level = ''1'', entry_score = 100\<rparr>]
   \<and> length (case snd (get_high_scores (\<lambda>i. ''Wed Nov  4 17:01:00 2026'') (Some example_file)) of
                Inr r \<Rightarrow> r | Inl e \<Rightarrow> []) \<le> 10"
proof -
  let ?now = "\<lambda>i::nat. ''Wed Nov  4 17:01:00 2026''"
  note absent = get_high_scores_ten_best [of ?now None]
  note present = get_high_scores_ten_best [of ?now "Some example_file"]
  from absent have a: "fst (get_high_scores ?now None) = Some (create_high_scores ?now)"
    by blast
  from absent have b: "snd (get_high_scores ?now None) =
       Inr [\<lparr>entry_name = ''Freddy'', entry_level = ''5'', entry_score = 50000\<rparr>,
            \<lparr>entry_name = ''BBB'', entry_level = ''5'', entry_score = 45000\<rparr>,
            \<lparr>entry_name = ''Freddy'', entry_level = ''4'', entry_score = 40000\<rparr>,
            \<lparr>entry_name = ''BBB'', entry_level = ''4'', entry_score = 35000\<rparr>,
            \<lparr>entry_name = ''Freddy'', entry_level = ''3'', entry_score = 30000\<rparr>,
            \<lparr>entry_name = ''BBB'', entry_level = ''3'', entry_score = 25000\<rparr>,
            \<lparr>entry_name = ''Freddy'', entry_level = ''2'', entry_score = 20000\<rparr>,
            \<lparr>entry_name = ''BBB'', entry_level = ''2'', entry_score = 15000\<rparr>,
            \<lparr>entry_name = ''Freddy'', entry_level = ''1'', entry_score = 10000\<rparr>,
            \<lparr>entry_name = ''BBB'', entry_level = ''1'', entry_score = 5000\<rparr>]"
    by blast
  from present have c: "fst (get_high_scores ?now (Some example_file)) = Some example_file"
    by blast
  note d = get_high_scores_example_file [of ?now]
  from present have "\<forall>r. snd (get_high_scores ?now (Some example_file)) = Inr r \<longrightarrow> length r \<le> 10"
    by blast
  with d have e: "length (case snd (get_high_scores ?now (Some example_file)) of
                Inr r \<Rightarrow> r | Inl e \<Rightarrow> []) \<le> 10"
    by simp
  from a b c d e show ?thesis
    by (intro conjI)
qed

section \<open>The velocity of every ball stays derived\<close>

text \<open>The constructor makes a ball with a derived velocity, and the operations on a ball
  and on the level keep the velocities derived: \<open>velocity_derived\<close> holds of every ball
  that the operations modelled here can make.\<close>

lemma velocity_derived_set_velocity: "velocity_derived (set_velocity b)"
proof -
  have "0 \<le> ball_speed (set_velocity b)"
    using set_velocity_speed_pos [of b] by simp
  then show ?thesis
    by (simp add: velocity_derived_def change_x_set_velocity change_y_set_velocity
        velocity_angle_set_velocity abs_mult)
qed

lemma velocity_derived_Ball_init: "velocity_derived (Ball_init t l)"
  by (simp add: Ball_init_def velocity_derived_set_velocity)

lemma velocity_derived_change_velocity: "velocity_derived (change_velocity pl pw b)"
  by (simp add: change_velocity_def Let_def velocity_derived_set_velocity)

lemma velocity_derived_drop_ball: "velocity_derived (drop_ball b)"
  by (simp add: drop_ball_def velocity_derived_set_velocity)

lemma velocity_angle_Ball_init: "velocity_angle (Ball_init t l) = 45"
  by (simp add: Ball_init_def velocity_angle_set_velocity)

lemma velocity_derived_fresh: "velocity_angle b = 45 \<Longrightarrow> velocity_derived b"
  by (simp add: velocity_derived_def)

lemma velocity_derived_moved:
  "velocity_derived (b\<lparr>center_x := x\<rparr>) = velocity_derived b"
  "velocity_derived (b\<lparr>center_y := y\<rparr>) = velocity_derived b"
  "velocity_derived (b\<lparr>center_x := x, change_x := - change_x b\<rparr>) = velocity_derived b"
  "velocity_derived (b\<lparr>center_y := y, change_y := - change_y b\<rparr>) = velocity_derived b"
  by (simp_all add: velocity_derived_def)

lemma velocity_derived_reflected:
  "velocity_derived (b\<lparr>change_x := - change_x b\<rparr>) = velocity_derived b"
  "velocity_derived (b\<lparr>change_y := - change_y b\<rparr>) = velocity_derived b"
  by (simp_all add: velocity_derived_def)

lemma velocity_derived_change_speed: "velocity_derived (change_speed action b)"
proof -
  let ?b1 = "if action = ''increase'' then b\<lparr>ball_speed := ball_speed b + speed_increment\<rparr>
             else if action = ''decrease'' then b\<lparr>ball_speed := ball_speed b - speed_decrement\<rparr>
             else b"
  have d: "velocity_derived (set_velocity ?b1)"
    by (rule velocity_derived_set_velocity)
  have a: "velocity_angle (change_speed action b) = velocity_angle (set_velocity ?b1)"
    by (simp add: change_speed_def Let_def)
  have x: "\<bar>change_x (change_speed action b)\<bar> = \<bar>change_x (set_velocity ?b1)\<bar>"
    unfolding change_speed_components(1) by (simp del: if_split add: if_distrib [of abs] cong: if_cong)
  have y: "\<bar>change_y (change_speed action b)\<bar> = \<bar>change_y (set_velocity ?b1)\<bar>"
    unfolding change_speed_components(2) by (simp del: if_split add: if_distrib [of abs] cong: if_cong)
  show ?thesis
    using d unfolding velocity_derived_def a x y change_speed_components(3) .
qed

lemma velocity_derived_paddle_side:
  "velocity_derived b \<Longrightarrow> velocity_derived (collides_with_paddle_moving_horizontally hit p b)"
  by (simp add: collides_with_paddle_moving_horizontally_def Let_def velocity_derived_set_velocity
      set_left_def set_right_def velocity_derived_moved velocity_derived_reflected)

lemma all_derived_update:
  "all_derived l \<Longrightarrow> velocity_derived b \<Longrightarrow> all_derived (l\<lparr>balls := (balls l)(i := b)\<rparr>)"
  by (simp add: all_derived_def)

lemma all_derived_paddle: "all_derived (l\<lparr>paddle := p\<rparr>) = all_derived l"
  by (simp add: all_derived_def)

lemma all_derived_convert_to: "all_derived l \<Longrightarrow> all_derived (snd (convert_to t i l))"
  by (simp add: all_derived_def convert_to_fields change_horizontal_velocity_def
      velocity_derived_fresh velocity_angle_Ball_init)

lemma all_derived_split_into_two: "all_derived l \<Longrightarrow> all_derived (split_into_two i l)"
  by (simp add: all_derived_def split_into_two_def Let_def velocity_derived_fresh
      velocity_angle_Ball_init)

lemma all_derived_change_velocity_at: "all_derived l \<Longrightarrow> all_derived (change_velocity_at i l)"
  by (simp add: all_derived_def change_velocity_at_def velocity_derived_change_velocity)

lemma all_derived_change_speed_at: "all_derived l \<Longrightarrow> all_derived (change_speed_at a i l)"
  by (simp add: all_derived_def change_speed_at_def velocity_derived_change_speed)

lemma all_derived_fold:
  assumes "\<And>x l. all_derived l \<Longrightarrow> all_derived (f x l)"
  shows "all_derived l \<Longrightarrow> all_derived (fold f xs l)"
  by (induction xs arbitrary: l) (simp_all add: assms)

lemma all_derived_change_speed_of_all: "all_derived l \<Longrightarrow> all_derived (change_speed_of_all a l)"
  unfolding change_speed_of_all_def by (rule all_derived_fold) (rule all_derived_change_speed_at)

lemmas all_derived_steps =
  all_derived_paddle all_derived_convert_to all_derived_split_into_two
  all_derived_change_velocity_at

lemma all_derived_Ball_change_properties:
  "all_derived l \<Longrightarrow> all_derived (Ball_change_properties i l)"
  by (simp add: Ball_change_properties_def Let_def split_beta all_derived_steps)

lemma all_derived_paddle_top:
  "all_derived l \<Longrightarrow> all_derived (collides_with_paddle_moving_vertically hit i l)"
proof -
  assume l: "all_derived l"
  then have b: "velocity_derived (balls l i)"
    by (simp add: all_derived_def)
  show ?thesis
    using l b
    by (simp add: collides_with_paddle_moving_vertically_def Let_def all_derived_update
        velocity_derived_set_velocity set_top_def set_bottom_def velocity_derived_moved
        velocity_derived_reflected all_derived_Ball_change_properties)
qed

lemma all_derived_release_one: "all_derived l \<Longrightarrow> all_derived (release_one i l)"
  by (simp add: release_one_def Let_def split_beta all_derived_steps)

lemma all_derived_release_magnetic_balls:
  "all_derived l \<Longrightarrow> all_derived (release_magnetic_balls l)"
  by (simp add: release_magnetic_balls_def Let_def all_derived_paddle all_derived_fold
      all_derived_release_one)

lemma all_derived_change_properties_of_all:
  "all_derived (change_properties_of_all ks l) = all_derived l"
  by (simp add: all_derived_def balls_change_properties_of_all)

lemma all_derived_InvinciBall_bricks:
  assumes "all_derived l"
  shows "all_derived (InvinciBall_collides_with_brick_moving_horizontally hit_list i l)"
    and "all_derived (InvinciBall_collides_with_brick_moving_vertically hit_list i l)"
proof -
  from assms have b: "velocity_derived (balls l i)"
    by (simp add: all_derived_def)
  show "all_derived (InvinciBall_collides_with_brick_moving_horizontally hit_list i l)"
    using assms b
    by (simp add: InvinciBall_collides_with_brick_moving_horizontally_def Let_def
        all_derived_change_properties_of_all all_derived_update set_left_def set_right_def
        velocity_derived_moved velocity_derived_reflected split: option.splits)
  show "all_derived (InvinciBall_collides_with_brick_moving_vertically hit_list i l)"
    using assms b
    by (simp add: InvinciBall_collides_with_brick_moving_vertically_def Let_def
        all_derived_change_properties_of_all all_derived_update set_top_def set_bottom_def
        velocity_derived_moved velocity_derived_reflected split: option.splits)
qed


lemma all_derived_InvinciBallIcon_round:
  "all_derived l \<Longrightarrow> all_derived (InvinciBallIcon_round n l)"
  by (simp add: InvinciBallIcon_round_def Let_def all_derived_steps)

lemma all_derived_InvinciBallIcon_loop:
  "all_derived l \<Longrightarrow> all_derived (InvinciBallIcon_loop n l)"
proof (induction n l rule: InvinciBallIcon_loop.induct)
  case (1 n l)
  show ?case
  proof (cases "n < length (magnetic_ball_list (paddle l))")
    case False
    then show ?thesis
      using "1.prems" by (subst InvinciBallIcon_loop_unfold) simp
  next
    case True
    show ?thesis
    proof (cases "is_invincible (balls l (magnetic_ball_list (paddle l) ! n))")
      case inv: True
      have "all_derived (InvinciBallIcon_loop (Suc n) l)"
        using "1.IH"(2) [OF True refl _ "1.prems"] inv by simp
      with True inv show ?thesis
        by (subst InvinciBallIcon_loop_unfold) simp
    next
      case False
      have "all_derived (InvinciBallIcon_round n l)"
        using "1.prems" by (rule all_derived_InvinciBallIcon_round)
      then have "all_derived (InvinciBallIcon_loop (Suc n) (InvinciBallIcon_round n l))"
        using "1.IH"(1) [OF True refl False refl refl refl refl refl refl]
        by (simp add: InvinciBallIcon_round_def Let_def)
      with True False show ?thesis
        by (subst InvinciBallIcon_loop_unfold) simp
    qed
  qed
qed

lemma all_derived_Shorten_loop:
  "all_derived l \<Longrightarrow> all_derived (ShortenPaddleIcon_loop n l)"
proof (induction n l rule: ShortenPaddleIcon_loop.induct)
  case (1 n l)
  show ?case
  proof (cases "n < length (magnetic_ball_list (paddle l))")
    case False
    then show ?thesis
      using "1.prems" by (subst ShortenPaddleIcon_loop.simps) simp
  next
    case True
    let ?ball = "magnetic_ball_list (paddle l) ! n"
    show ?thesis
    proof (cases "center_x (balls l ?ball) < left (paddle l) \<or> center_x (balls l ?ball) > right (paddle l)")
      case False
      have "all_derived (ShortenPaddleIcon_loop (Suc n) l)"
        by (rule "1.IH"(2) [OF True refl False "1.prems"])
      with True False show ?thesis
        by (subst ShortenPaddleIcon_loop.simps) (simp add: Let_def)
    next
      case out: True
      let ?r = "if is_invincible (balls l ?ball) then convert_to InvinciBall ?ball l
                else convert_to NormalBall ?ball l"
      let ?l1 = "snd ?r"
      let ?l2 = "?l1\<lparr>balls := (balls ?l1)(fst ?r := drop_ball (balls ?l1 (fst ?r)))\<rparr>"
      let ?l3 = "?l2\<lparr>paddle := (paddle ?l2)\<lparr>magnetic_ball_list := remove1 ?ball (magnetic_ball_list (paddle ?l2))\<rparr>\<rparr>"
      have "all_derived ?l1"
        by (simp add: all_derived_convert_to "1.prems")
      then have "all_derived ?l2"
        by (rule all_derived_update) (rule velocity_derived_drop_ball)
      then have "all_derived ?l3"
        by (simp only: all_derived_paddle)
      then have "all_derived (ShortenPaddleIcon_loop (Suc n) ?l3)"
        by (rule "1.IH"(1) [OF True refl out refl refl refl refl refl])
      with True out show ?thesis
        by (subst ShortenPaddleIcon_loop.simps) (simp add: Let_def)
    qed
  qed
qed

lemma all_derived_icons:
  assumes "all_derived l"
  shows "all_derived (InvinciBallIcon_activate_icon_property l)"
    and "all_derived (ShortenPaddleIcon_activate_icon_property l)"
    and "all_derived (LengthenPaddleIcon_activate_icon_property l)"
    and "all_derived (SpeedUpBallsIcon_activate_icon_property l)"
    and "all_derived (SlowDownBallsIcon_activate_icon_property l)"
  using assms
  by (simp_all add: InvinciBallIcon_activate_icon_property_def
      ShortenPaddleIcon_activate_icon_property_def LengthenPaddleIcon_activate_icon_property_def
      SpeedUpBallsIcon_activate_icon_property_def SlowDownBallsIcon_activate_icon_property_def
      Let_def all_derived_InvinciBallIcon_loop all_derived_Shorten_loop
      all_derived_change_speed_of_all all_derived_release_magnetic_balls all_derived_paddle)

lemma balls_level_is_complete: "balls (level_is_complete l) = balls l"
  by (simp add: level_is_complete_def Let_def)

lemma balls_lose_a_life: "balls (lose_a_life l) = balls l"
  by (simp add: lose_a_life_def Let_def)

lemma all_derived_start_of_update: "all_derived (start_of_update dt l) = all_derived l"
  by (simp add: all_derived_def start_of_update_def show_view_def Let_def)

lemma all_derived_Level_on_update:
  assumes "all_derived l" and "\<And>s. all_derived s \<Longrightarrow> all_derived (update_sprites s)"
    and "Level_on_update update_sprites HIGH_SCORES dt l = Inr l'"
  shows "all_derived l'"
proof -
  have s: "all_derived (start_of_update dt l)"
    using assms(1) by (simp add: all_derived_start_of_update)
  then have u: "all_derived (update_sprites (start_of_update dt l))"
    by (rule assms(2))
  show ?thesis
    using assms(3) s u
    by (auto simp: Level_on_update_def Let_def balls_level_is_complete balls_lose_a_life
        show_view_def all_derived_def velocity_derived_Ball_init split: if_splits)
qed

end
